theory Spec2Isabelle
  imports Complex_Main "HOL-Library.AList" "HOL-Library.Product_Lexorder"
begin

text \<open>
  The ETL pipeline \<open>DeliveryETL\<close> of \<open>src/etl_pipeline.py\<close>: a CSV file is read into
  a pandas DataFrame, cleaned and enriched by \<open>transform\<close>, checked by \<open>validate\<close>,
  and written to a CSV file and to PostgreSQL.

  The table operations of pandas are modelled on a DataFrame of rows; the methods of the
  class are modelled on a state that holds the pipeline object, the DataFrame objects
  it refers to, the files, the open database connections and the printed messages.
  Exceptions are outcomes of the methods.
\<close>

section \<open>Strings\<close>

text \<open>
  Column names and text cells are Python \<open>str\<close> values, modelled as \<open>string\<close>.
  \<open>lower\<close> is \<open>str.lower\<close> on the ASCII letters; \<open>str_in p s\<close> is the Python
  test \<open>p in s\<close> (substring).
\<close>

definition upper_chars :: string where
  "upper_chars = ''ABCDEFGHIJKLMNOPQRSTUVWXYZ''"

definition lower_chars :: string where
  "lower_chars = ''abcdefghijklmnopqrstuvwxyz''"

definition char_lower :: "char \<Rightarrow> char" where
  "char_lower c = (case map_of (zip upper_chars lower_chars) c of Some d \<Rightarrow> d | None \<Rightarrow> c)"

definition lower :: "string \<Rightarrow> string" where
  "lower s = map char_lower s"

fun startswith :: "string \<Rightarrow> string \<Rightarrow> bool" where
  "startswith s [] = True"
| "startswith [] (p # ps) = False"
| "startswith (c # cs) (p # ps) = (c = p \<and> startswith cs ps)"

fun str_in :: "string \<Rightarrow> string \<Rightarrow> bool" where
  "str_in p [] = (p = [])"
| "str_in p (c # cs) = (startswith (c # cs) p \<or> str_in p cs)"

text \<open>
  \<open>Series.str.contains(pat)\<close> with a pattern \<open>k1|k2|...\<close> of plain keywords: some keyword
  is a substring.
\<close>

definition str_contains :: "string list \<Rightarrow> string \<Rightarrow> bool" where
  "str_contains keywords s = list_ex (\<lambda>k. str_in k s) keywords"

section \<open>Cells, columns and data frames\<close>

text \<open>
  A pandas cell is missing (\<open>NaN\<close>, \<open>None\<close>, \<open>NaT\<close>), a number, a text or a timestamp.
  A number is finite or one of the two infinities of float64 (\<open>read_csv\<close> reads \<open>inf\<close>
  and \<open>-inf\<close>); \<open>NaN\<close> is the missing value. Finite numbers are rationals: the
  rounding of float64 is not modelled. A column has one of three kinds of dtype: numeric
  (int64, float64; for these \<open>is_numeric_dtype\<close> holds), object, datetime64. Boolean
  columns are not modelled.
\<close>

datatype number = Finite rat | PosInf | NegInf

datatype timestamp = Timestamp (ts_year: int) (ts_month: int) (ts_day: int) (ts_nanos: int)

datatype cell = NA | Number number | Str string | TS timestamp

abbreviation Num :: "rat \<Rightarrow> cell" where
  "Num q \<equiv> Number (Finite q)"

datatype dtype = Numeric | Object | Datetime

type_synonym row = "(string \<times> cell) list"

text \<open>
  A DataFrame: the ordered columns with their dtypes, and the rows in index order, each
  row listing its cells by column name in column order.
\<close>

record dataframe =
  dtypes :: "(string \<times> dtype) list"
  rows :: "row list"

definition columns :: "dataframe \<Rightarrow> string list" where
  "columns df = map fst (dtypes df)"

definition len :: "dataframe \<Rightarrow> nat" where
  "len df = length (rows df)"

text \<open>
  In a well-formed frame the column names are distinct (\<open>read_csv\<close> renames repeated
  header fields) and every row has one cell per column, in column order.
\<close>

definition wf_df :: "dataframe \<Rightarrow> bool" where
  "wf_df df = (distinct (columns df) \<and> list_all (\<lambda>r. map fst r = columns df) (rows df))"

definition isnull :: "cell \<Rightarrow> bool" where
  "isnull v = (v = NA)"

text \<open>
  The cell of column \<open>c\<close> in a row. A row of a well-formed frame has the cell when \<open>c\<close>
  is a column; the code reads no other columns.
\<close>

definition cell_of :: "string \<Rightarrow> row \<Rightarrow> cell" where
  "cell_of c r = (case map_of r c of Some v \<Rightarrow> v | None \<Rightarrow> NA)"

text \<open>\<open>df[c]\<close>: the values and the dtype of column \<open>c\<close>.\<close>

definition col_values :: "dataframe \<Rightarrow> string \<Rightarrow> cell list" where
  "col_values df c = map (cell_of c) (rows df)"

definition col_dtype :: "dataframe \<Rightarrow> string \<Rightarrow> dtype" where
  "col_dtype df c = (case map_of (dtypes df) c of Some d \<Rightarrow> d | None \<Rightarrow> Object)"

text \<open>
  \<open>df[c] = series\<close>: an existing column is replaced where it stands, a new one is
  appended as the last column. The series comes from the same frame, one value per row.
\<close>

definition setitem :: "string \<Rightarrow> dtype \<Rightarrow> cell list \<Rightarrow> dataframe \<Rightarrow> dataframe" where
  "setitem c d vs df =
     df\<lparr>dtypes := AList.update c d (dtypes df),
        rows := map (\<lambda>(v, r). AList.update c v r) (zip vs (rows df))\<rparr>"

definition isnull_sum_sum :: "dataframe \<Rightarrow> nat" where
  "isnull_sum_sum df = sum_list (map (\<lambda>r. length (filter isnull (map snd r))) (rows df))"

definition dropna :: "string list \<Rightarrow> dataframe \<Rightarrow> dataframe" where
  "dropna cols df =
     df\<lparr>rows := filter (\<lambda>r. list_all (\<lambda>c. \<not> isnull (cell_of c r)) cols) (rows df)\<rparr>"

definition is_numeric_dtype :: "dtype \<Rightarrow> bool" where
  "is_numeric_dtype d = (d = Numeric)"

fun num_values :: "cell list \<Rightarrow> number list" where
  "num_values [] = []"
| "num_values (Number x # vs) = x # num_values vs"
| "num_values (v # vs) = num_values vs"

text \<open>
  The order of the numbers, as a sorting key, and the mean of two numbers: the mean of
  the two infinities of opposite sign is \<open>NaN\<close> (here \<open>None\<close>).
\<close>

fun number_key :: "number \<Rightarrow> int \<times> rat" where
  "number_key NegInf = (- 1, 0)"
| "number_key (Finite q) = (0, q)"
| "number_key PosInf = (1, 0)"

fun mean2 :: "number \<Rightarrow> number \<Rightarrow> number option" where
  "mean2 (Finite a) (Finite b) = Some (Finite ((a + b) / 2))"
| "mean2 PosInf NegInf = None"
| "mean2 NegInf PosInf = None"
| "mean2 PosInf b = Some PosInf"
| "mean2 a PosInf = Some PosInf"
| "mean2 NegInf b = Some NegInf"
| "mean2 a NegInf = Some NegInf"

text \<open>
  \<open>Series.median()\<close> skips the missing values and takes the middle of the sorted
  numbers, the mean of the two middle ones when their count is even. It is \<open>NaN\<close> on a
  column without any number, and when the two middle numbers are \<open>-inf\<close> and \<open>inf\<close>.
\<close>

definition median :: "cell list \<Rightarrow> cell" where
  "median vs =
     (let s = sort_key number_key (num_values vs); n = length s in
      if n = 0 then NA
      else if odd n then Number (s ! (n div 2))
      else (case mean2 (s ! (n div 2 - 1)) (s ! (n div 2)) of
              None \<Rightarrow> NA
            | Some m \<Rightarrow> Number m))"

definition fillna :: "cell \<Rightarrow> cell list \<Rightarrow> cell list" where
  "fillna v vs = map (\<lambda>x. if isnull x then v else x) vs"

text \<open>
  Filling a datetime64 column that has a \<open>NaT\<close> with a text gives an object column;
  in every other case the dtype stays.
\<close>

definition fillna_dtype :: "dtype \<Rightarrow> cell list \<Rightarrow> dtype" where
  "fillna_dtype d vs = (if d = Datetime \<and> list_ex isnull vs then Object else d)"

text \<open>
  What the code takes from pandas without fixing it: the date parser behind
  \<open>pd.to_datetime\<close> (on a text and on a number; \<open>None\<close> when the value does not parse),
  the calendar accessors, and the text form of numbers and timestamps under
  \<open>astype(str)\<close>. The theorems hold for every such library.
\<close>

record pandas =
  to_datetime_str :: "string \<Rightarrow> timestamp option"
  to_datetime_num :: "number \<Rightarrow> timestamp option"
  dayofweek :: "timestamp \<Rightarrow> int"
  day_name :: "timestamp \<Rightarrow> string"
  str_num :: "number \<Rightarrow> string"
  str_ts :: "timestamp \<Rightarrow> string"

text \<open>
  \<open>pd.to_datetime(..., errors="coerce")\<close> on one cell: a timestamp stays, a missing
  value stays missing, a text or a number is parsed. The conversion of a column is taken
  cell by cell.
\<close>

fun to_datetime :: "pandas \<Rightarrow> cell \<Rightarrow> cell" where
  "to_datetime L NA = NA"
| "to_datetime L (TS t) = TS t"
| "to_datetime L (Str s) = (case to_datetime_str L s of None \<Rightarrow> NA | Some t \<Rightarrow> TS t)"
| "to_datetime L (Number n) = (case to_datetime_num L n of None \<Rightarrow> NA | Some t \<Rightarrow> TS t)"

fun dt_year :: "cell \<Rightarrow> cell" where
  "dt_year (TS t) = Num (of_int (ts_year t))"
| "dt_year v = NA"

fun dt_month :: "cell \<Rightarrow> cell" where
  "dt_month (TS t) = Num (of_int (ts_month t))"
| "dt_month v = NA"

fun dt_dayofweek :: "pandas \<Rightarrow> cell \<Rightarrow> cell" where
  "dt_dayofweek L (TS t) = Num (of_int (dayofweek L t))"
| "dt_dayofweek L v = NA"

fun dt_day_name :: "pandas \<Rightarrow> cell \<Rightarrow> cell" where
  "dt_day_name L (TS t) = Str (day_name L t)"
| "dt_day_name L v = NA"

text \<open>
  \<open>astype(str)\<close> on one cell of a column of dtype \<open>d\<close>; a missing value prints as
  \<open>NaT\<close> in a datetime64 column and as \<open>nan\<close> elsewhere.
\<close>

fun astype_str :: "pandas \<Rightarrow> dtype \<Rightarrow> cell \<Rightarrow> string" where
  "astype_str L d NA = (if d = Datetime then ''NaT'' else ''nan'')"
| "astype_str L d (Number n) = str_num L n"
| "astype_str L d (Str s) = s"
| "astype_str L d (TS t) = str_ts L t"

definition astype_int :: "bool \<Rightarrow> cell" where
  "astype_int b = Num (if b then 1 else 0)"

text \<open>
  \<open>df.duplicated()\<close> marks a row that equals an earlier row in every column;
  \<open>df.drop_duplicates()\<close> keeps the unmarked rows.
\<close>

fun duplicated_from :: "row list \<Rightarrow> row list \<Rightarrow> bool list" where
  "duplicated_from seen [] = []"
| "duplicated_from seen (r # rs) = (r \<in> set seen) # duplicated_from (r # seen) rs"

definition duplicated :: "dataframe \<Rightarrow> bool list" where
  "duplicated df = duplicated_from [] (rows df)"

definition drop_duplicates :: "dataframe \<Rightarrow> dataframe" where
  "drop_duplicates df =
     df\<lparr>rows := map snd (filter (\<lambda>(d, r). \<not> d) (zip (duplicated df) (rows df)))\<rparr>"

section \<open>The transformer\<close>

text \<open>Column roles: a name that contains the keyword, case-insensitively.\<close>

definition id_like :: "string \<Rightarrow> bool" where
  "id_like c = str_in ''id'' (lower c)"

definition date_like :: "string \<Rightarrow> bool" where
  "date_like c = str_in ''date'' (lower c)"

definition status_like :: "string \<Rightarrow> bool" where
  "status_like c = str_in ''status'' (lower c)"

text \<open>
  Step 2.1, first half: \<open>critical_cols = id_cols[:1] if id_cols else []\<close>, and the rows
  with a missing value in these columns are dropped.
\<close>

definition drop_missing_id :: "string list \<Rightarrow> dataframe \<Rightarrow> dataframe" where
  "drop_missing_id id_cols df =
     (let critical_cols = (if id_cols \<noteq> [] then take 1 id_cols else []) in
      if critical_cols \<noteq> [] then dropna critical_cols df else df)"

text \<open>Step 2.1, second half: the body of the loop over \<open>df.columns\<close>, and the loop.\<close>

definition fill_column :: "string \<Rightarrow> dataframe \<Rightarrow> dataframe" where
  "fill_column col df =
     (let vs = col_values df col; d = col_dtype df col in
      if is_numeric_dtype d then setitem col d (fillna (median vs) vs) df
      else setitem col (fillna_dtype d vs) (fillna (Str ''Unknown'') vs) df)"

definition fill_missing :: "dataframe \<Rightarrow> dataframe" where
  "fill_missing df = fold fill_column (columns df) df"

text \<open>Step 2.2: every date-like column is parsed, a value that does not parse is \<open>NaT\<close>.\<close>

definition convert_date :: "pandas \<Rightarrow> string \<Rightarrow> dataframe \<Rightarrow> dataframe" where
  "convert_date L col df = setitem col Datetime (map (to_datetime L) (col_values df col)) df"

definition convert_dates :: "pandas \<Rightarrow> string list \<Rightarrow> dataframe \<Rightarrow> dataframe" where
  "convert_dates L date_cols df = fold (convert_date L) date_cols df"

text \<open>Step 2.3: the four time features of the first date-like column.\<close>

definition time_features :: "pandas \<Rightarrow> string list \<Rightarrow> dataframe \<Rightarrow> dataframe" where
  "time_features L date_cols df =
     (case date_cols of
        [] \<Rightarrow> df
      | main_date_col # _ \<Rightarrow>
          (let df = setitem ''order_year'' Numeric (map dt_year (col_values df main_date_col)) df;
               df = setitem ''order_month'' Numeric (map dt_month (col_values df main_date_col)) df;
               df = setitem ''order_day_of_week'' Numeric
                      (map (dt_dayofweek L) (col_values df main_date_col)) df;
               df = setitem ''order_day_name'' Object
                      (map (dt_day_name L) (col_values df main_date_col)) df
           in df))"

text \<open>Step 2.4: the flags of the first status-like column.\<close>

definition delivered_keywords :: "string list" where
  "delivered_keywords = [''delivered'', ''completed'', ''success'', ''delivered on time'']"

definition late_keywords :: "string list" where
  "late_keywords = [''late'', ''delay'']"

definition status_flags :: "pandas \<Rightarrow> string list \<Rightarrow> dataframe \<Rightarrow> dataframe" where
  "status_flags L status_cols df =
     (case status_cols of
        [] \<Rightarrow> df
      | status_col # _ \<Rightarrow>
          (let status_lower =
                 map (\<lambda>v. lower (astype_str L (col_dtype df status_col) v))
                   (col_values df status_col);
               df = setitem ''is_delivered'' Numeric
                      (map (\<lambda>s. astype_int (str_contains delivered_keywords s)) status_lower) df;
               df = setitem ''is_late'' Numeric
                      (map (\<lambda>s. astype_int (str_contains late_keywords s)) status_lower) df;
               df = setitem ''is_on_time'' Numeric
                      (map (\<lambda>(d, l). astype_int (d = Num 1 \<and> l = Num 0))
                         (zip (col_values df ''is_delivered'') (col_values df ''is_late''))) df
           in df))"

text \<open>Step 2.5: duplicates are removed when there are any.\<close>

definition remove_duplicates :: "dataframe \<Rightarrow> dataframe" where
  "remove_duplicates df =
     (let dup_count = length (filter (\<lambda>d. d) (duplicated df)) in
      if dup_count > 0 then drop_duplicates df else df)"

text \<open>
  The table that \<open>transform()\<close> computes from the raw table: the column roles are read
  off the raw columns once, then the steps run in the order of the code.
\<close>

definition before_dedup :: "pandas \<Rightarrow> dataframe \<Rightarrow> dataframe" where
  "before_dedup L raw =
     (let df = raw;
          id_cols = filter id_like (columns df);
          date_cols = filter date_like (columns df);
          status_cols = filter status_like (columns df);
          df = drop_missing_id id_cols df;
          df = fill_missing df;
          df = convert_dates L date_cols df;
          df = time_features L date_cols df;
          df = status_flags L status_cols df
      in df)"

definition transform_df :: "pandas \<Rightarrow> dataframe \<Rightarrow> dataframe" where
  "transform_df L raw = remove_duplicates (before_dedup L raw)"

section \<open>The pipeline object and its surroundings\<close>

text \<open>
  A run acts on the pipeline object (\<open>self.raw_df\<close>, \<open>self.clean_df\<close>), on the data
  frames it refers to, on the files, on the database connections and on standard output.
  Data frames are objects in a store: \<open>df[col] = ...\<close> changes the object in place, while
  \<open>copy\<close>, \<open>dropna\<close>, \<open>drop_duplicates\<close> and \<open>read_csv\<close> make a new object. Of the
  printed lines only those that report an outcome are kept.
\<close>

datatype error =
  FileNotFoundError | AttributeError | TypeError | ZeroDivisionError | ParserError | OSError
  | ImportError | DatabaseError

datatype db_op =
  ImportPsycopg2 | Connect | Cursor | ExecuteDrop | CommitDrop | ExecuteCreate | CommitCreate
  | ExecuteInsert nat | CommitInsert | ExecuteCount | FetchOne | CursorClose | ConnClose

datatype message =
  RowsColumns nat nat
  | UniqueRatio string rat
  | MissingPercentage rat
  | SkippingDatabaseLoad
  | ConnectingToPostgreSQL
  | SuccessfullyConnected
  | DatabaseLoadFailed error
  | EtlComplete
  | CsvSavedTo string
  | DataLoadedToPostgreSQL

type_synonym addr = nat

record etl =
  raw_df :: "addr option"
  clean_df :: "addr option"
  heap :: "addr \<Rightarrow> dataframe option"
  next_addr :: addr
  files :: "string \<Rightarrow> string option"
  open_connections :: nat
  stdout :: "message list"

text \<open>
  What the run finds around it: the CSV reader and writer of pandas, whether the output
  file can be written, whether SQLAlchemy was importable, and which steps of the database
  stage fail (the import of psycopg2 and the calls into it).
\<close>

record env =
  read_csv :: "string \<Rightarrow> dataframe option"
  to_csv :: "dataframe \<Rightarrow> string"
  csv_writable :: bool
  SQLALCHEMY_AVAILABLE :: bool
  db_fails :: "db_op \<Rightarrow> bool"

datatype outcome = Returns etl | Raises error etl

fun and_then :: "outcome \<Rightarrow> (etl \<Rightarrow> outcome) \<Rightarrow> outcome" where
  "and_then (Returns s) f = f s"
| "and_then (Raises e s) f = Raises e s"

definition RAW_DATASET :: string where
  "RAW_DATASET = ''data/raw/amazon_delivery.csv''"

definition PROCESSED_DATASET :: string where
  "PROCESSED_DATASET = ''data/processed/deliveries_cleaned.csv''"

definition new_object :: "dataframe \<Rightarrow> etl \<Rightarrow> addr \<times> etl" where
  "new_object df s =
     (next_addr s, s\<lparr>heap := (heap s)(next_addr s \<mapsto> df), next_addr := Suc (next_addr s)\<rparr>)"

definition in_place :: "addr \<Rightarrow> (dataframe \<Rightarrow> dataframe) \<Rightarrow> etl \<Rightarrow> etl" where
  "in_place a f s =
     (case heap s a of None \<Rightarrow> s | Some df \<Rightarrow> s\<lparr>heap := (heap s)(a \<mapsto> f df)\<rparr>)"

definition print :: "message \<Rightarrow> etl \<Rightarrow> etl" where
  "print m s = s\<lparr>stdout := stdout s @ [m]\<rparr>"

text \<open>The object a field of the pipeline refers to; \<open>None\<close> when the field is \<open>None\<close>.\<close>

definition deref :: "etl \<Rightarrow> addr option \<Rightarrow> dataframe option" where
  "deref s ref = (case ref of None \<Rightarrow> None | Some a \<Rightarrow> heap s a)"

subsection \<open>extract\<close>

text \<open>The method \<open>extract\<close>; the name alone is taken by a command of Isabelle.\<close>

definition extract_raw :: "env \<Rightarrow> etl \<Rightarrow> outcome" where
  "extract_raw E s =
     (case files s RAW_DATASET of
        None \<Rightarrow> Raises FileNotFoundError s
      | Some content \<Rightarrow>
          (case read_csv E content of
             None \<Rightarrow> Raises ParserError s
           | Some df \<Rightarrow> (let (a, s) = new_object df s in Returns (s\<lparr>raw_df := Some a\<rparr>))))"

subsection \<open>transform\<close>

text \<open>
  Inside \<open>transform\<close> the local variable \<open>df\<close> refers to an object of the store; a
  pair \<open>(df, s)\<close> is the variable together with the state. \<open>df = f(df)\<close> makes a new
  object and binds \<open>df\<close> to it (\<open>rebind\<close>); \<open>df[col] = ...\<close> changes the object
  \<open>df\<close> refers to (\<open>mutate\<close>).
\<close>

definition rebind :: "(dataframe \<Rightarrow> dataframe) \<Rightarrow> addr \<times> etl \<Rightarrow> addr \<times> etl" where
  "rebind f p = (case heap (snd p) (fst p) of None \<Rightarrow> p | Some d \<Rightarrow> new_object (f d) (snd p))"

definition mutate :: "(dataframe \<Rightarrow> dataframe) \<Rightarrow> addr \<times> etl \<Rightarrow> addr \<times> etl" where
  "mutate f p = (fst p, in_place (fst p) f (snd p))"

definition duplicated_sum :: "addr \<times> etl \<Rightarrow> nat" where
  "duplicated_sum p =
     (case heap (snd p) (fst p) of None \<Rightarrow> 0 | Some d \<Rightarrow> length (filter (\<lambda>d. d) (duplicated d)))"

definition transform :: "pandas \<Rightarrow> etl \<Rightarrow> outcome" where
  "transform L s =
     (case deref s (raw_df s) of
        None \<Rightarrow> Raises AttributeError s
      | Some raw \<Rightarrow>
          (let p = new_object raw s;
               id_cols = filter id_like (columns raw);
               date_cols = filter date_like (columns raw);
               status_cols = filter status_like (columns raw);
               critical_cols = (if id_cols \<noteq> [] then take 1 id_cols else []);
               p = (if critical_cols \<noteq> [] then rebind (dropna critical_cols) p else p);
               p = mutate fill_missing p;
               p = mutate (convert_dates L date_cols) p;
               p = mutate (time_features L date_cols) p;
               p = mutate (status_flags L status_cols) p;
               dup_count = duplicated_sum p;
               p = (if dup_count > 0 then rebind drop_duplicates p else p)
           in Returns ((snd p)\<lparr>clean_df := Some (fst p)\<rparr>)))"

subsection \<open>validate\<close>

text \<open>
  \<open>nunique()\<close> is a Python \<open>int\<close> and \<open>float(len(df))\<close> a Python \<open>float\<close>: their
  quotient raises \<open>ZeroDivisionError\<close> when the table has no rows.
\<close>

definition nunique :: "cell list \<Rightarrow> nat" where
  "nunique vs = length (remdups (filter (\<lambda>v. \<not> isnull v) vs))"

definition py_div :: "rat \<Rightarrow> rat \<Rightarrow> error + rat" where
  "py_div a b = (if b = 0 then Inl ZeroDivisionError else Inr (a / b))"

definition validate :: "etl \<Rightarrow> outcome" where
  "validate s =
     (case deref s (clean_df s) of
        None \<Rightarrow> Raises TypeError s
      | Some df \<Rightarrow>
          (let s = print (RowsColumns (len df) (length (columns df))) s;
               id_cols = filter id_like (columns df);
               total_cells = len df * length (columns df);
               total_missing = isnull_sum_sum df;
               missing_pct = (if total_cells \<noteq> 0
                              then (of_nat total_missing / of_nat total_cells) * 100 else 0)
           in case id_cols of
                [] \<Rightarrow> Returns (print (MissingPercentage missing_pct) s)
              | id_col # _ \<Rightarrow>
                  (case py_div (of_nat (nunique (col_values df id_col))) (of_nat (len df)) of
                     Inl e \<Rightarrow> Raises e s
                   | Inr unique_ratio \<Rightarrow>
                       Returns (print (MissingPercentage missing_pct)
                                  (print (UniqueRatio id_col unique_ratio) s)))))"

subsection \<open>load_to_csv\<close>

text \<open>
  The cleaned table is written over the processed-dataset file. A write that fails
  raises; what it leaves of the file is not modelled.
\<close>

definition load_to_csv :: "env \<Rightarrow> etl \<Rightarrow> outcome" where
  "load_to_csv E s =
     (case deref s (clean_df s) of
        None \<Rightarrow> Raises AttributeError s
      | Some df \<Rightarrow>
          if csv_writable E
          then Returns (s\<lparr>files := (files s)(PROCESSED_DATASET \<mapsto> to_csv E df)\<rparr>)
          else Raises OSError s)"

subsection \<open>load_to_database\<close>

text \<open>
  One step of the \<open>try\<close> block: it raises when the surroundings say so. The first step,
  \<open>import psycopg2\<close>, fails with \<open>ImportError\<close> when psycopg2 is not installed.
\<close>

definition db_call :: "env \<Rightarrow> db_op \<Rightarrow> etl \<Rightarrow> outcome" where
  "db_call E op s =
     (if db_fails E op
      then Raises (if op = ImportPsycopg2 then ImportError else DatabaseError) s
      else Returns s)"

fun insert_rows :: "env \<Rightarrow> nat list \<Rightarrow> etl \<Rightarrow> outcome" where
  "insert_rows E [] s = Returns s"
| "insert_rows E (i # is) s = and_then (db_call E (ExecuteInsert i) s) (insert_rows E is)"

text \<open>The body of the \<open>try\<close> block, from the import of the driver to \<open>conn.close()\<close>.\<close>

definition db_try_body :: "env \<Rightarrow> etl \<Rightarrow> outcome" where
  "db_try_body E s =
     and_then (db_call E ImportPsycopg2 s) (\<lambda>s.
     and_then (db_call E Connect s) (\<lambda>s.
     and_then (Returns (print SuccessfullyConnected
                 (s\<lparr>open_connections := Suc (open_connections s)\<rparr>))) (\<lambda>s.
     and_then (db_call E Cursor s) (\<lambda>s.
     and_then (db_call E ExecuteDrop s) (\<lambda>s.
     and_then (db_call E CommitDrop s) (\<lambda>s.
     and_then (db_call E ExecuteCreate s) (\<lambda>s.
     and_then (db_call E CommitCreate s) (\<lambda>s.
     and_then (case deref s (clean_df s) of
                 None \<Rightarrow> Raises TypeError s
               | Some df \<Rightarrow> insert_rows E [0..<len df] s) (\<lambda>s.
     and_then (db_call E CommitInsert s) (\<lambda>s.
     and_then (db_call E ExecuteCount s) (\<lambda>s.
     and_then (db_call E FetchOne s) (\<lambda>s.
     and_then (db_call E CursorClose s) (\<lambda>s.
     and_then (db_call E ConnClose s) (\<lambda>s.
     Returns (s\<lparr>open_connections := open_connections s - 1\<rparr>)))))))))))))))"

definition load_to_database :: "env \<Rightarrow> etl \<Rightarrow> outcome" where
  "load_to_database E s =
     (if \<not> SQLALCHEMY_AVAILABLE E then Returns (print SkippingDatabaseLoad s)
      else (case db_try_body E (print ConnectingToPostgreSQL s) of
              Returns s \<Rightarrow> Returns s
            | Raises e s \<Rightarrow> Returns (print (DatabaseLoadFailed e) s)))"

subsection \<open>run\<close>

text \<open>The chain \<open>self.extract().transform().validate().load_to_csv()\<close>.\<close>

definition csv_stages :: "env \<Rightarrow> pandas \<Rightarrow> etl \<Rightarrow> outcome" where
  "csv_stages E L s =
     and_then (and_then (and_then (extract_raw E s) (transform L)) validate) (load_to_csv E)"

definition run :: "env \<Rightarrow> pandas \<Rightarrow> bool \<Rightarrow> etl \<Rightarrow> outcome" where
  "run E L load_db s =
     and_then (csv_stages E L s) (\<lambda>s.
     and_then (if load_db then load_to_database E s else Returns s) (\<lambda>s.
     (let s = print EtlComplete s;
          s = print (CsvSavedTo PROCESSED_DATASET) s;
          s = (if load_db then print DataLoadedToPostgreSQL s else s)
      in Returns s)))"

section \<open>A library and surroundings for the examples\<close>

text \<open>
  The examples below run the code with a library that reads ISO dates
  (\<open>YYYY-MM-DD\<close>, within the range of a pandas timestamp) and nothing else, as pandas
  does on the texts that occur in them; numbers are read as nanoseconds since 1970 only
  at zero. Finite numbers print as int64 values do.
\<close>

definition digit_value :: "char \<Rightarrow> nat option" where
  "digit_value c = map_of (zip ''0123456789'' [0, 1, 2, 3, 4, 5, 6, 7, 8, 9]) c"

fun number_of :: "nat \<Rightarrow> string \<Rightarrow> nat option" where
  "number_of acc [] = Some acc"
| "number_of acc (c # cs) =
     (case digit_value c of None \<Rightarrow> None | Some d \<Rightarrow> number_of (10 * acc + d) cs)"

definition days_in_month :: "int \<Rightarrow> int \<Rightarrow> int" where
  "days_in_month y m =
     (if m = 2 then (if y mod 4 = 0 \<and> (y mod 100 \<noteq> 0 \<or> y mod 400 = 0) then 29 else 28)
      else if m = 4 \<or> m = 6 \<or> m = 9 \<or> m = 11 then 30 else 31)"

definition iso_date :: "string \<Rightarrow> timestamp option" where
  "iso_date s =
     (if length s = 10 \<and> s ! 4 = CHR ''-'' \<and> s ! 7 = CHR ''-'' then
        (case (number_of 0 (take 4 s), number_of 0 (take 2 (drop 5 s)), number_of 0 (drop 8 s)) of
           (Some y, Some m, Some d) \<Rightarrow>
             if 1678 \<le> y \<and> y \<le> 2261 \<and> 1 \<le> m \<and> m \<le> 12 \<and> 1 \<le> d
                \<and> int d \<le> days_in_month (int y) (int m)
             then Some (Timestamp (int y) (int m) (int d) 0) else None
         | _ \<Rightarrow> None)
      else None)"

definition iso_dayofweek :: "timestamp \<Rightarrow> int" where
  "iso_dayofweek t =
     (let y = (if ts_month t < 3 then ts_year t - 1 else ts_year t);
          k = [0, 3, 2, 5, 0, 3, 5, 1, 4, 6, 2, 4] ! nat (ts_month t - 1)
      in (y + y div 4 - y div 100 + y div 400 + k + ts_day t + 6) mod 7)"

definition iso_day_name :: "timestamp \<Rightarrow> string" where
  "iso_day_name t =
     [''Monday'', ''Tuesday'', ''Wednesday'', ''Thursday'', ''Friday'', ''Saturday'', ''Sunday'']
       ! nat (iso_dayofweek t)"

fun digits_of :: "nat \<Rightarrow> string" where
  "digits_of n =
     (if n < 10 then [''0123456789'' ! n] else digits_of (n div 10) @ [''0123456789'' ! (n mod 10)])"

declare digits_of.simps [simp del]

definition pad :: "nat \<Rightarrow> string \<Rightarrow> string" where
  "pad w s = replicate (w - length s) (CHR ''0'') @ s"

definition iso_str_ts :: "timestamp \<Rightarrow> string" where
  "iso_str_ts t =
     pad 4 (digits_of (nat (ts_year t))) @ ''-'' @ pad 2 (digits_of (nat (ts_month t)))
       @ ''-'' @ pad 2 (digits_of (nat (ts_day t)))"

fun int_str_num :: "number \<Rightarrow> string" where
  "int_str_num (Finite q) = (if q < 0 then ''-'' else []) @ digits_of (nat \<lfloor>\<bar>q\<bar>\<rfloor>)"
| "int_str_num PosInf = ''inf''"
| "int_str_num NegInf = ''-inf''"

definition iso_pandas :: pandas where
  "iso_pandas =
     \<lparr>to_datetime_str = iso_date,
      to_datetime_num = (\<lambda>n. if n = Finite 0 then Some (Timestamp 1970 1 1 0) else None),
      dayofweek = iso_dayofweek,
      day_name = iso_day_name,
      str_num = int_str_num,
      str_ts = iso_str_ts\<rparr>"

section \<open>The steps, row by row\<close>

text \<open>
  Every step between the identifier drop and the deduplication rewrites each row on its
  own, once the fill values of the columns are known. These functions say what happens
  to one row; the lemmas below show that the steps compute them.
\<close>

definition fill_value :: "dataframe \<Rightarrow> string \<Rightarrow> cell" where
  "fill_value df col =
     (if is_numeric_dtype (col_dtype df col) then median (col_values df col)
      else Str ''Unknown'')"

definition fill_cell :: "cell \<Rightarrow> cell \<Rightarrow> cell" where
  "fill_cell v x = (if isnull x then v else x)"

definition fill_row :: "(string \<Rightarrow> cell) \<Rightarrow> string list \<Rightarrow> row \<Rightarrow> row" where
  "fill_row fv cs r = fold (\<lambda>c r. AList.update c (fill_cell (fv c) (cell_of c r)) r) cs r"

definition dates_row :: "pandas \<Rightarrow> string list \<Rightarrow> row \<Rightarrow> row" where
  "dates_row L cs r = fold (\<lambda>c r. AList.update c (to_datetime L (cell_of c r)) r) cs r"

definition time_row :: "pandas \<Rightarrow> string \<Rightarrow> row \<Rightarrow> row" where
  "time_row L main r =
     (let r = AList.update ''order_year'' (dt_year (cell_of main r)) r;
          r = AList.update ''order_month'' (dt_month (cell_of main r)) r;
          r = AList.update ''order_day_of_week'' (dt_dayofweek L (cell_of main r)) r;
          r = AList.update ''order_day_name'' (dt_day_name L (cell_of main r)) r
      in r)"

definition flags_row :: "pandas \<Rightarrow> dtype \<Rightarrow> string \<Rightarrow> row \<Rightarrow> row" where
  "flags_row L d status_col r =
     (let s = lower (astype_str L d (cell_of status_col r));
          r = AList.update ''is_delivered'' (astype_int (str_contains delivered_keywords s)) r;
          r = AList.update ''is_late'' (astype_int (str_contains late_keywords s)) r;
          r = AList.update ''is_on_time''
                (astype_int (cell_of ''is_delivered'' r = Num 1 \<and> cell_of ''is_late'' r = Num 0)) r
      in r)"

text \<open>The rows that \<open>drop_duplicates\<close> keeps, given the rows seen before.\<close>

definition kept_from :: "row list \<Rightarrow> row list \<Rightarrow> row list" where
  "kept_from seen rs = map snd (filter (\<lambda>(d, r). \<not> d) (zip (duplicated_from seen rs) rs))"

text \<open>
  Keeping the first occurrence, in the words of the specification: the rows, in row
  order, that no earlier row equals.
\<close>

definition keep_first :: "row list \<Rightarrow> row list" where
  "keep_first rs = map (\<lambda>i. rs ! i) (filter (\<lambda>i. rs ! i \<notin> set (take i rs)) [0..<length rs])"

section \<open>Notions used in the statements\<close>

text \<open>The lower-cased text of the status column in a row, as the flags read it.\<close>

definition status_text :: "pandas \<Rightarrow> dataframe \<Rightarrow> string \<Rightarrow> row \<Rightarrow> string" where
  "status_text L df status_col r =
     lower (astype_str L (col_dtype df status_col) (cell_of status_col r))"

text \<open>The derived columns, and a column without missing value.\<close>

definition time_feature_names :: "string list" where
  "time_feature_names = [''order_year'', ''order_month'', ''order_day_of_week'', ''order_day_name'']"

definition flag_names :: "string list" where
  "flag_names = [''is_delivered'', ''is_late'', ''is_on_time'']"

definition no_missing :: "string \<Rightarrow> dataframe \<Rightarrow> bool" where
  "no_missing c df = list_all (\<lambda>r. \<not> isnull (cell_of c r)) (rows df)"


text \<open>
  The numeric columns that a second run of \<open>transform()\<close> fills again are those that are
  neither date-like nor a time feature of a date-like column. Such a column is settled
  when it has no missing value, or no number at all.
\<close>

definition refilled :: "dataframe \<Rightarrow> string \<Rightarrow> bool" where
  "refilled df c =
     (is_numeric_dtype (col_dtype df c) \<and> \<not> date_like c
      \<and> \<not> (filter date_like (columns df) \<noteq> [] \<and> c \<in> set time_feature_names))"

definition gaps_settled :: "dataframe \<Rightarrow> bool" where
  "gaps_settled df =
     list_all (\<lambda>c. refilled df c \<longrightarrow> no_missing c df \<or> num_values (col_values df c) = [])
       (columns df)"

text \<open>The exception a stage ends with, if any.\<close>

fun raised :: "outcome \<Rightarrow> error option" where
  "raised (Returns s) = None"
| "raised (Raises e s) = Some e"

fun final_state :: "outcome \<Rightarrow> etl" where
  "final_state (Returns s) = s"
| "final_state (Raises e s) = s"

section \<open>An invariant of transform\<close>

text \<open>
  Inside \<open>transform\<close>, counted from the state \<open>s0\<close> it started in: the variable
  \<open>df\<close> refers to a table \<open>d\<close> made since, and nothing else has changed.
\<close>

definition local_df :: "etl \<Rightarrow> dataframe \<Rightarrow> addr \<times> etl \<Rightarrow> bool" where
  "local_df s0 d p =
     (heap (snd p) (fst p) = Some d \<and> next_addr s0 \<le> fst p \<and> fst p < next_addr (snd p)
      \<and> list_all (\<lambda>a. heap (snd p) a = heap s0 a) [0..<next_addr s0]
      \<and> raw_df (snd p) = raw_df s0 \<and> clean_df (snd p) = clean_df s0
      \<and> files (snd p) = files s0 \<and> open_connections (snd p) = open_connections s0
      \<and> stdout (snd p) = stdout s0)"

section \<open>Example inputs\<close>

text \<open>
  A raw table with a duplicated row, a row without identifier, a date that does not
  parse and a missing number.
\<close>

definition ex1 :: dataframe where
  "ex1 =
     \<lparr>dtypes = [(''Order_ID'', Object), (''Order_Date'', Object),
                (''Delivery_Status'', Object), (''Agent_Age'', Numeric)],
      rows =
        [[(''Order_ID'', Str ''A1''), (''Order_Date'', Str ''2022-03-19''),
          (''Delivery_Status'', Str ''Delivered On Time''), (''Agent_Age'', Num 30)],
         [(''Order_ID'', Str ''A1''), (''Order_Date'', Str ''2022-03-19''),
          (''Delivery_Status'', Str ''Delivered On Time''), (''Agent_Age'', Num 30)],
         [(''Order_ID'', NA), (''Order_Date'', Str ''2022-03-20''),
          (''Delivery_Status'', Str ''Late''), (''Agent_Age'', Num 25)],
         [(''Order_ID'', Str ''A2''), (''Order_Date'', Str ''not a date''),
          (''Delivery_Status'', Str ''Delayed''), (''Agent_Age'', NA)]]\<rparr>"

text \<open>What \<open>transform()\<close> makes of it.\<close>

definition ex1_clean :: dataframe where
  "ex1_clean =
     \<lparr>dtypes = [(''Order_ID'', Object), (''Order_Date'', Datetime),
                (''Delivery_Status'', Object), (''Agent_Age'', Numeric),
                (''order_year'', Numeric), (''order_month'', Numeric),
                (''order_day_of_week'', Numeric), (''order_day_name'', Object),
                (''is_delivered'', Numeric), (''is_late'', Numeric), (''is_on_time'', Numeric)],
      rows =
        [[(''Order_ID'', Str ''A1''), (''Order_Date'', TS (Timestamp 2022 3 19 0)),
          (''Delivery_Status'', Str ''Delivered On Time''), (''Agent_Age'', Num 30),
          (''order_year'', Num 2022), (''order_month'', Num 3),
          (''order_day_of_week'', Num 5), (''order_day_name'', Str ''Saturday''),
          (''is_delivered'', Num 1), (''is_late'', Num 0), (''is_on_time'', Num 1)],
         [(''Order_ID'', Str ''A2''), (''Order_Date'', NA),
          (''Delivery_Status'', Str ''Delayed''), (''Agent_Age'', Num 30),
          (''order_year'', NA), (''order_month'', NA),
          (''order_day_of_week'', NA), (''order_day_name'', NA),
          (''is_delivered'', Num 0), (''is_late'', Num 1), (''is_on_time'', Num 0)]]\<rparr>"

text \<open>A table whose only column is identifier-like and date-like at once.\<close>

definition ex2 :: dataframe where
  "ex2 = \<lparr>dtypes = [(''Paid_Date'', Object)],
           rows = [[(''Paid_Date'', Str ''2022-03-19'')], [(''Paid_Date'', Str ''soon'')]]\<rparr>"

text \<open>A table without identifier-like column.\<close>

definition ex_no_id :: dataframe where
  "ex_no_id = \<lparr>dtypes = [(''Status'', Object)], rows = [[(''Status'', NA)]]\<rparr>"

text \<open>
  Tables with infinities: a numeric column whose median is \<open>NaN\<close> although it holds
  numbers, and one whose median changes when the duplicate row is gone.
\<close>

definition ex_inf :: dataframe where
  "ex_inf =
     \<lparr>dtypes = [(''Order_ID'', Object), (''Weight'', Numeric)],
      rows = [[(''Order_ID'', Str ''A1''), (''Weight'', Number PosInf)],
              [(''Order_ID'', Str ''A2''), (''Weight'', Number NegInf)],
              [(''Order_ID'', Str ''A3''), (''Weight'', NA)]]\<rparr>"

definition ex_inf2 :: dataframe where
  "ex_inf2 =
     \<lparr>dtypes = [(''Order_ID'', Object), (''Weight'', Numeric)],
      rows = [[(''Order_ID'', Str ''A''), (''Weight'', Number NegInf)],
              [(''Order_ID'', Str ''A''), (''Weight'', Number NegInf)],
              [(''Order_ID'', Str ''B''), (''Weight'', Number PosInf)],
              [(''Order_ID'', Str ''C''), (''Weight'', Number PosInf)],
              [(''Order_ID'', Str ''D''), (''Weight'', NA)]]\<rparr>"

text \<open>A file with a header line and no data row.\<close>

definition ex_empty :: dataframe where
  "ex_empty = \<lparr>dtypes = [(''Order_ID'', Object), (''Delivery_Status'', Object)], rows = []\<rparr>"

text \<open>
  The pipeline object as \<open>__init__\<close> leaves it, among the given files, and the same
  after \<open>extract()\<close> has read the table \<open>raw\<close>.
\<close>

definition init_etl :: "(string \<Rightarrow> string option) \<Rightarrow> etl" where
  "init_etl fs =
     \<lparr>raw_df = None, clean_df = None, heap = Map.empty, next_addr = 0, files = fs,
      open_connections = 0, stdout = []\<rparr>"

definition extracted :: "dataframe \<Rightarrow> etl" where
  "extracted raw =
     \<lparr>raw_df = Some 0, clean_df = None, heap = [0 \<mapsto> raw], next_addr = 1,
      files = [RAW_DATASET \<mapsto> ''raw''], open_connections = 0, stdout = []\<rparr>"

text \<open>
  Surroundings for the examples: the raw file holds the table \<open>ex1\<close>, the writer
  writes the header line, the database is reachable and refuses the first insert (the
  table \<open>deliveries\<close> has no column \<open>Delivery_Status\<close>).
\<close>

definition example_env :: env where
  "example_env =
     \<lparr>read_csv = (\<lambda>content. if content = ''raw'' then Some ex1 else None),
      to_csv = (\<lambda>df. concat (map (\<lambda>c. c @ '','') (columns df))),
      csv_writable = True,
      SQLALCHEMY_AVAILABLE = True,
      db_fails = (\<lambda>op. op = ExecuteInsert 0)\<rparr>"

text \<open>Surroundings without SQLAlchemy.\<close>

definition no_sqlalchemy_env :: env where
  "no_sqlalchemy_env = example_env\<lparr>SQLALCHEMY_AVAILABLE := False\<rparr>"

text \<open>Surroundings with SQLAlchemy installed and psycopg2 not installed.\<close>

definition no_psycopg2_env :: env where
  "no_psycopg2_env = example_env\<lparr>db_fails := (\<lambda>op. op = ImportPsycopg2)\<rparr>"

text \<open>The pipeline object after \<open>extract()\<close> and \<open>transform()\<close> on \<open>ex1\<close>.\<close>

definition ex1_transformed :: etl where
  "ex1_transformed = final_state (transform iso_pandas (extracted ex1))"

text \<open>The pipeline object before a run, with the raw file in place.\<close>

definition ex_start :: etl where
  "ex_start = init_etl [RAW_DATASET \<mapsto> ''raw'']"

section \<open>The derived table, column by column\<close>

text \<open>The steps between the identifier drop and the deduplication.\<close>

definition derive :: "pandas \<Rightarrow> string list \<Rightarrow> string list \<Rightarrow> dataframe \<Rightarrow> dataframe" where
  "derive L date_cols status_cols df =
     status_flags L status_cols
       (time_features L date_cols (convert_dates L date_cols (fill_missing df)))"

definition derive_row ::
  "pandas \<Rightarrow> (string \<Rightarrow> cell) \<Rightarrow> string list \<Rightarrow> string list \<Rightarrow> string list \<Rightarrow> dtype \<Rightarrow> row \<Rightarrow> row" where
  "derive_row L fv cols date_cols status_cols d r =
     (let r = dates_row L date_cols (fill_row fv cols r);
          r = (case date_cols of [] \<Rightarrow> r | m # _ \<Rightarrow> time_row L m r);
          r = (case status_cols of [] \<Rightarrow> r | sc # _ \<Rightarrow> flags_row L d sc r)
      in r)"

text \<open>The cell of column \<open>c\<close> after the fill and the date conversion.\<close>

definition base_cell ::
  "pandas \<Rightarrow> (string \<Rightarrow> cell) \<Rightarrow> string list \<Rightarrow> string list \<Rightarrow> string \<Rightarrow> row \<Rightarrow> cell" where
  "base_cell L fv cols date_cols c r =
     (let v = (if c \<in> set cols then fill_cell (fv c) (cell_of c r) else cell_of c r)
      in if c \<in> set date_cols then to_datetime L v else v)"

definition time_cell :: "pandas \<Rightarrow> string \<Rightarrow> cell \<Rightarrow> cell" where
  "time_cell L c v =
     (if c = ''order_year'' then dt_year v
      else if c = ''order_month'' then dt_month v
      else if c = ''order_day_of_week'' then dt_dayofweek L v
      else dt_day_name L v)"

definition flag_cell :: "string \<Rightarrow> string \<Rightarrow> cell" where
  "flag_cell c s =
     (if c = ''is_delivered'' then astype_int (str_contains delivered_keywords s)
      else if c = ''is_late'' then astype_int (str_contains late_keywords s)
      else astype_int (str_contains delivered_keywords s \<and> \<not> str_contains late_keywords s))"

definition time_dtype :: "string \<Rightarrow> dtype" where
  "time_dtype c = (if c = ''order_day_name'' then Object else Numeric)"

definition fill_dtype :: "dataframe \<Rightarrow> string \<Rightarrow> dtype" where
  "fill_dtype df c =
     (if is_numeric_dtype (col_dtype df c) then col_dtype df c
      else fillna_dtype (col_dtype df c) (col_values df c))"

definition base_dtype :: "dataframe \<Rightarrow> string list \<Rightarrow> string \<Rightarrow> dtype" where
  "base_dtype df date_cols c =
     (if c \<in> set date_cols then Datetime
      else if c \<in> set (columns df) then fill_dtype df c else col_dtype df c)"

text \<open>A column that no derived column overwrites.\<close>

definition base_col :: "string list \<Rightarrow> string list \<Rightarrow> string \<Rightarrow> bool" where
  "base_col date_cols status_cols c =
     (\<not> (status_cols \<noteq> [] \<and> c \<in> set flag_names)
      \<and> \<not> (date_cols \<noteq> [] \<and> c \<in> set time_feature_names))"

text \<open>The names of the columns after an assignment to column \<open>c\<close>.\<close>

definition add_key :: "string \<Rightarrow> string list \<Rightarrow> string list" where
  "add_key c ks = (if c \<in> set ks then ks else ks @ [c])"

section \<open>Association lists\<close>

lemma cell_of_update:
  "cell_of c (AList.update c' v r) = (if c = c' then v else cell_of c r)"
  by (simp add: cell_of_def update_conv')

lemma zip_map_self:
  "map (\<lambda>(v, r). g v r) (zip (map h xs) xs) = map (\<lambda>x. g (h x) x) xs"
  by (induction xs) auto

lemma rows_setitem_map:
  "rows (setitem c d (map h (rows df)) df) = map (\<lambda>r. AList.update c (h r) r) (rows df)"
  by (simp add: setitem_def zip_map_self)

lemma rows_setitem_col:
  "rows (setitem c d (map g (col_values df c')) df)
     = map (\<lambda>r. AList.update c (g (cell_of c' r)) r) (rows df)"
  using rows_setitem_map[of c d "\<lambda>r. g (cell_of c' r)" df]
  by (simp add: col_values_def comp_def)

lemma dtypes_setitem [simp]: "dtypes (setitem c d vs df) = AList.update c d (dtypes df)"
  by (simp add: setitem_def)

lemma col_dtype_setitem [simp]:
  "col_dtype (setitem c d vs df) c' = (if c' = c then d else col_dtype df c')"
  by (simp add: col_dtype_def update_conv')

section \<open>The steps compute the row functions\<close>

lemma rows_fill_column:
  "rows (fill_column col df)
     = map (\<lambda>r. AList.update col (fill_cell (fill_value df col) (cell_of col r)) r) (rows df)"
proof -
  have "fillna v (col_values df col) = map (fill_cell v) (col_values df col)" for v
    by (simp add: fillna_def fill_cell_def)
  then show ?thesis
    by (simp add: fill_column_def Let_def fill_value_def rows_setitem_col)
qed

lemma col_values_fill_column_other:
  "c \<noteq> col \<Longrightarrow> col_values (fill_column col df) c = col_values df c"
  by (simp add: col_values_def rows_fill_column comp_def cell_of_update)

lemma col_dtype_fill_column_other:
  "c \<noteq> col \<Longrightarrow> col_dtype (fill_column col df) c = col_dtype df c"
  by (simp add: fill_column_def Let_def)

lemma fill_value_fill_column_other:
  "c \<noteq> col \<Longrightarrow> fill_value (fill_column col df) c = fill_value df c"
  by (simp add: fill_value_def col_values_fill_column_other col_dtype_fill_column_other)

lemma fill_row_cong:
  "(\<And>c. c \<in> set cs \<Longrightarrow> fv c = fv' c) \<Longrightarrow> fill_row fv cs r = fill_row fv' cs r"
  by (induction cs arbitrary: r) (simp_all add: fill_row_def)

lemma fill_row_Cons:
  "fill_row fv (c # cs) r = fill_row fv cs (AList.update c (fill_cell (fv c) (cell_of c r)) r)"
  by (simp add: fill_row_def)

lemma rows_fold_fill_column:
  "distinct cs \<Longrightarrow>
   rows (fold fill_column cs df) = map (fill_row (fill_value df) cs) (rows df)"
proof (induction cs arbitrary: df)
  case Nil
  then show ?case by (simp add: fill_row_def)
next
  case (Cons c cs)
  have same: "fill_row (fill_value (fill_column c df)) cs r = fill_row (fill_value df) cs r" for r
    using Cons.prems by (intro fill_row_cong fill_value_fill_column_other) auto
  from Cons show ?case
    by (simp add: rows_fill_column same fill_row_Cons comp_def)
qed

lemma rows_fill_missing:
  "distinct (columns df) \<Longrightarrow>
   rows (fill_missing df) = map (fill_row (fill_value df) (columns df)) (rows df)"
  by (simp add: fill_missing_def rows_fold_fill_column)

lemma rows_convert_date:
  "rows (convert_date L c df) = map (\<lambda>r. AList.update c (to_datetime L (cell_of c r)) r) (rows df)"
  by (simp add: convert_date_def rows_setitem_col)

lemma dates_row_Nil: "dates_row L [] r = r"
  by (simp add: dates_row_def)

lemma dates_row_Cons:
  "dates_row L (c # cs) r = dates_row L cs (AList.update c (to_datetime L (cell_of c r)) r)"
  by (simp add: dates_row_def)

lemma rows_convert_dates:
  "rows (convert_dates L cs df) = map (dates_row L cs) (rows df)"
proof (induction cs arbitrary: df)
  case Nil
  then show ?case by (simp add: convert_dates_def dates_row_Nil)
next
  case (Cons c cs)
  have "convert_dates L (c # cs) df = convert_dates L cs (convert_date L c df)"
    by (simp add: convert_dates_def)
  then show ?case
    by (simp add: Cons.IH rows_convert_date dates_row_Cons comp_def)
qed

lemma time_features_Nil: "time_features L [] df = df"
  by (simp add: time_features_def)

lemma rows_time_features_Cons:
  "rows (time_features L (m # ds) df) = map (time_row L m) (rows df)"
proof -
  define df1 where "df1 = setitem ''order_year'' Numeric (map dt_year (col_values df m)) df"
  define df2 where "df2 = setitem ''order_month'' Numeric (map dt_month (col_values df1 m)) df1"
  define df3 where
    "df3 = setitem ''order_day_of_week'' Numeric (map (dt_dayofweek L) (col_values df2 m)) df2"
  define df4 where
    "df4 = setitem ''order_day_name'' Object (map (dt_day_name L) (col_values df3 m)) df3"
  have tf: "time_features L (m # ds) df = df4"
    by (simp add: time_features_def Let_def df1_def df2_def df3_def df4_def)
  have r1: "rows df1 = map (\<lambda>r. AList.update ''order_year'' (dt_year (cell_of m r)) r) (rows df)"
    unfolding df1_def by (rule rows_setitem_col)
  have r2: "rows df2 = map (\<lambda>r. AList.update ''order_month'' (dt_month (cell_of m r)) r) (rows df1)"
    unfolding df2_def by (rule rows_setitem_col)
  have r3: "rows df3
      = map (\<lambda>r. AList.update ''order_day_of_week'' (dt_dayofweek L (cell_of m r)) r) (rows df2)"
    unfolding df3_def by (rule rows_setitem_col)
  have r4: "rows df4
      = map (\<lambda>r. AList.update ''order_day_name'' (dt_day_name L (cell_of m r)) r) (rows df3)"
    unfolding df4_def by (rule rows_setitem_col)
  show ?thesis
    unfolding tf r4 r3 r2 r1 by (simp add: time_row_def Let_def comp_def)
qed

lemma status_flags_Nil: "status_flags L [] df = df"
  by (simp add: status_flags_def)

lemma zip_map_map_self:
  "map (\<lambda>(a, b). g a b) (zip (map h xs) (map k xs)) = map (\<lambda>x. g (h x) (k x)) xs"
  by (induction xs) auto

lemma rows_status_flags_Cons:
  "rows (status_flags L (sc # ss) df) = map (flags_row L (col_dtype df sc) sc) (rows df)"
proof -
  define sl where "sl = (\<lambda>r. lower (astype_str L (col_dtype df sc) (cell_of sc r)))"
  define df1 where "df1 = setitem ''is_delivered'' Numeric
      (map (\<lambda>r. astype_int (str_contains delivered_keywords (sl r))) (rows df)) df"
  define df2 where "df2 = setitem ''is_late'' Numeric
      (map (\<lambda>r. astype_int (str_contains late_keywords (sl r))) (rows df)) df1"
  define df3 where "df3 = setitem ''is_on_time'' Numeric
      (map (\<lambda>r. astype_int (cell_of ''is_delivered'' r = Num 1 \<and> cell_of ''is_late'' r = Num 0))
         (rows df2)) df2"
  have sf: "status_flags L (sc # ss) df = df3"
    by (simp add: status_flags_def Let_def df1_def df2_def df3_def sl_def col_values_def
        comp_def zip_map_map_self)
  have r1: "rows df1
      = map (\<lambda>r. AList.update ''is_delivered'' (astype_int (str_contains delivered_keywords (sl r))) r)
          (rows df)"
    unfolding df1_def by (rule rows_setitem_map)
  have "rows df2 = map (\<lambda>(v, r). AList.update ''is_late'' v r)
      (zip (map (\<lambda>r. astype_int (str_contains late_keywords (sl r))) (rows df)) (rows df1))"
    by (simp add: df2_def setitem_def)
  then have r2: "rows df2
      = map (\<lambda>r. AList.update ''is_late'' (astype_int (str_contains late_keywords (sl r)))
                 (AList.update ''is_delivered''
                    (astype_int (str_contains delivered_keywords (sl r))) r))
          (rows df)"
    unfolding r1 by (simp add: zip_map_map_self)
  have r3: "rows df3
      = map (\<lambda>r. AList.update ''is_on_time''
                 (astype_int (cell_of ''is_delivered'' r = Num 1 \<and> cell_of ''is_late'' r = Num 0)) r)
          (rows df2)"
    unfolding df3_def by (rule rows_setitem_map)
  show ?thesis
    unfolding sf r3 r2 by (simp add: flags_row_def Let_def comp_def sl_def)
qed

section \<open>Deduplication\<close>

lemma kept_from_Nil [simp]: "kept_from seen [] = []"
  by (simp add: kept_from_def)

lemma kept_from_Cons [simp]:
  "kept_from seen (r # rs) = (if r \<in> set seen then kept_from (r # seen) rs else r # kept_from (r # seen) rs)"
  by (simp add: kept_from_def)

lemma set_kept_from: "set (kept_from seen rs) = set rs - set seen"
  by (induction rs arbitrary: seen) auto

lemma distinct_kept_from: "distinct (kept_from seen rs)"
  by (induction rs arbitrary: seen) (auto simp: set_kept_from)

lemma kept_from_filter:
  "kept_from seen rs = map (\<lambda>i. rs ! i) (filter (\<lambda>i. rs ! i \<notin> set seen \<union> set (take i rs)) [0..<length rs])"
proof (induction rs arbitrary: seen)
  case Nil
  then show ?case by simp
next
  case (Cons r rs)
  have upt: "[0..<length (r # rs)] = 0 # map Suc [0..<length rs]"
    by (simp add: upt_conv_Cons map_Suc_upt del: upt_Suc)
  have flt: "filter (\<lambda>i. rs ! i \<noteq> r \<and> rs ! i \<notin> set seen \<and> rs ! i \<notin> set (take i rs)) [0..<length rs]
     = filter (\<lambda>i. rs ! i \<notin> set seen \<and> rs ! i \<noteq> r \<and> rs ! i \<notin> set (take i rs)) [0..<length rs]"
    by (rule filter_cong) auto
  show ?case
    unfolding upt
    by (simp add: Cons.IH filter_map comp_def flt)
qed

lemma kept_from_keep_first: "kept_from [] rs = keep_first rs"
  by (simp add: kept_from_filter keep_first_def)

lemma no_duplicated_kept:
  "filter (\<lambda>d. d) (duplicated_from seen rs) = [] \<Longrightarrow> kept_from seen rs = rs"
  by (induction rs arbitrary: seen) (auto split: if_splits)

lemma rows_remove_duplicates: "rows (remove_duplicates df) = kept_from [] (rows df)"
  by (simp add: remove_duplicates_def Let_def drop_duplicates_def duplicated_def
      kept_from_def[symmetric] no_duplicated_kept)

lemma dtypes_remove_duplicates: "dtypes (remove_duplicates df) = dtypes df"
  by (simp add: remove_duplicates_def Let_def drop_duplicates_def)

section \<open>The store during transform\<close>

lemma local_df_new_object: "local_df s raw (new_object raw s)"
  by (simp add: local_df_def new_object_def list_all_iff)

lemma local_df_rebind: "local_df s0 d p \<Longrightarrow> local_df s0 (f d) (rebind f p)"
  by (auto simp: local_df_def rebind_def new_object_def list_all_iff)

lemma local_df_mutate: "local_df s0 d p \<Longrightarrow> local_df s0 (f d) (mutate f p)"
  by (auto simp: local_df_def mutate_def in_place_def list_all_iff)

lemma duplicated_sum_local:
  "local_df s0 d p \<Longrightarrow> duplicated_sum p = length (filter (\<lambda>d. d) (duplicated d))"
  by (simp add: local_df_def duplicated_sum_def)

lemma transform_local:
  assumes "deref s (raw_df s) = Some raw"
  shows "\<exists>p. transform L s = Returns ((snd p)\<lparr>clean_df := Some (fst p)\<rparr>)
            \<and> local_df s (transform_df L raw) p"
proof -
  define ids where "ids = filter id_like (columns raw)"
  define p1 where "p1 = new_object raw s"
  define p2 where "p2 = (if ids \<noteq> [] then rebind (dropna (take 1 ids)) p1 else p1)"
  define p3 where "p3 = mutate (status_flags L (filter status_like (columns raw)))
     (mutate (time_features L (filter date_like (columns raw)))
       (mutate (convert_dates L (filter date_like (columns raw))) (mutate fill_missing p2)))"
  define p4 where "p4 = (if duplicated_sum p3 > 0 then rebind drop_duplicates p3 else p3)"
  have t: "transform L s = Returns ((snd p4)\<lparr>clean_df := Some (fst p4)\<rparr>)"
    using assms unfolding transform_def p4_def p3_def p2_def p1_def ids_def Let_def
    by (cases "filter id_like (columns raw) = []") simp_all
  have l1: "local_df s raw p1"
    unfolding p1_def by (rule local_df_new_object)
  have l2: "local_df s (drop_missing_id ids raw) p2"
    unfolding p2_def using l1
    by (auto simp: drop_missing_id_def Let_def intro: local_df_rebind)
  have l3: "local_df s (before_dedup L raw) p3"
    unfolding p3_def before_dedup_def Let_def ids_def[symmetric]
    by (intro local_df_mutate l2)
  have l4: "local_df s (transform_df L raw) p4"
    unfolding p4_def transform_df_def remove_duplicates_def Let_def
      duplicated_sum_local[OF l3]
    using l3 by (auto intro: local_df_rebind)
  from t l4 show ?thesis by blast
qed

text \<open>
  The table \<open>self.clean_df\<close> refers to after \<open>transform()\<close> is \<open>transform_df\<close> of
  the raw table: the claims about the transformed table are stated on \<open>transform_df\<close>.
\<close>

lemma transform_computes:
  assumes "deref s (raw_df s) = Some raw"
  shows "\<exists>s'. transform L s = Returns s' \<and> deref s' (clean_df s') = Some (transform_df L raw)"
proof -
  from transform_local[OF assms, of L] obtain p
    where t: "transform L s = Returns ((snd p)\<lparr>clean_df := Some (fst p)\<rparr>)"
      and l: "local_df s (transform_df L raw) p"
    by blast
  from l have "deref ((snd p)\<lparr>clean_df := Some (fst p)\<rparr>) (Some (fst p))
      = Some (transform_df L raw)"
    by (simp add: local_df_def deref_def)
  with t show ?thesis by simp
qed

section \<open>Stages and their effects\<close>

text \<open>After \<open>extract()\<close> the raw table is an object of the store.\<close>


lemma extract_raw_allocates:
  assumes "extract_raw E s = Returns s'"
  shows "\<exists>a raw. raw_df s' = Some a \<and> heap s' a = Some raw \<and> a < next_addr s'"
  using assms
  by (auto simp: extract_raw_def new_object_def split: option.splits)

lemma insert_rows_frame:
  "files (final_state (insert_rows E ns s)) = files s"
proof (induction ns arbitrary: s)
  case Nil
  then show ?case by simp
next
  case (Cons n ns)
  then show ?case by (simp add: db_call_def)
qed

lemma and_then_files:
  assumes "files (final_state r) = fs"
    and "\<And>s. files s = fs \<Longrightarrow> files (final_state (f s)) = fs"
  shows "files (final_state (and_then r f)) = fs"
  using assms by (cases r) auto

lemma db_call_files: "files (final_state (db_call E op s)) = files s"
  by (simp add: db_call_def)

lemma db_try_body_files: "files (final_state (db_try_body E s)) = files s"
  unfolding db_try_body_def
  by (intro and_then_files)
    (simp_all add: db_call_files insert_rows_frame print_def split: option.splits)

lemma load_to_database_returns: "\<exists>s'. load_to_database E s = Returns s'"
  by (simp add: load_to_database_def split: outcome.splits)

lemma load_to_database_skips:
  "\<not> SQLALCHEMY_AVAILABLE E \<Longrightarrow> load_to_database E s = Returns (print SkippingDatabaseLoad s)"
  by (simp add: load_to_database_def)

lemma load_to_database_catches:
  "SQLALCHEMY_AVAILABLE E \<Longrightarrow> db_try_body E (print ConnectingToPostgreSQL s) = Raises e s' \<Longrightarrow>
   load_to_database E s = Returns (print (DatabaseLoadFailed e) s')"
  by (simp add: load_to_database_def)

text \<open>Without psycopg2 the stage is not skipped: the import raises inside the \<open>try\<close> block.\<close>

lemma load_to_database_import_fails:
  assumes "SQLALCHEMY_AVAILABLE E" and "db_fails E ImportPsycopg2"
  shows "load_to_database E s
     = Returns (print (DatabaseLoadFailed ImportError) (print ConnectingToPostgreSQL s))"
  using assms by (simp add: load_to_database_def db_try_body_def db_call_def)

lemma load_to_database_passes:
  "SQLALCHEMY_AVAILABLE E \<Longrightarrow> db_try_body E (print ConnectingToPostgreSQL s) = Returns s' \<Longrightarrow>
   load_to_database E s = Returns s'"
  by (simp add: load_to_database_def)

lemma load_to_database_files:
  "load_to_database E s = Returns s' \<Longrightarrow> files s' = files s"
  using db_try_body_files[of E "print ConnectingToPostgreSQL s"]
  by (auto simp: load_to_database_def print_def split: if_splits outcome.splits)

lemma returns_final_state: "raised r = None \<Longrightarrow> r = Returns (final_state r)"
  by (cases r) auto

lemma raises_final_state: "raised r = Some e \<Longrightarrow> r = Raises e (final_state r)"
  by (cases r) auto

section \<open>What validate does\<close>

text \<open>
  \<open>validate()\<close> only prints: the pipeline object, the store and the files stay as they
  are. It raises exactly on a table without rows that has an identifier-like column.
\<close>

lemma validate_outcome:
  assumes "deref s (clean_df s) = Some df"
  shows "heap (final_state (validate s)) = heap s
       \<and> clean_df (final_state (validate s)) = clean_df s
       \<and> raw_df (final_state (validate s)) = raw_df s
       \<and> files (final_state (validate s)) = files s
       \<and> raised (validate s)
           = (if filter id_like (columns df) \<noteq> [] \<and> len df = 0 then Some ZeroDivisionError
              else None)"
proof (cases "filter id_like (columns df)")
  case Nil
  with assms show ?thesis
    by (simp add: validate_def Let_def print_def)
next
  case (Cons c cs)
  with assms show ?thesis
    by (simp add: validate_def Let_def print_def py_div_def)
qed

section \<open>The connection of the database stage\<close>

lemma insert_rows_connections:
  "open_connections (final_state (insert_rows E ns s)) = open_connections s"
proof (induction ns arbitrary: s)
  case Nil
  then show ?case by simp
next
  case (Cons n ns)
  then show ?case by (simp add: db_call_def)
qed

lemma and_then_raised_connections:
  assumes "open_connections (final_state r) = k"
    and "\<And>t. open_connections t = k \<Longrightarrow>
           raised (f t) \<noteq> None \<longrightarrow> open_connections (final_state (f t)) = k"
  shows "raised (and_then r f) \<noteq> None \<longrightarrow> open_connections (final_state (and_then r f)) = k"
  using assms by (cases r) auto

text \<open>
  Once \<open>psycopg2.connect\<close> has returned, an exception anywhere later in the \<open>try\<close>
  block leaves the connection open; only the run without exception closes it.
\<close>

lemma connection_open_after_failure:
  assumes "SQLALCHEMY_AVAILABLE E" and "\<not> db_fails E ImportPsycopg2" and "\<not> db_fails E Connect"
    and "raised (db_try_body E (print ConnectingToPostgreSQL s)) \<noteq> None"
  shows "open_connections (final_state (load_to_database E s)) = Suc (open_connections s)"
proof -
  define s0 where "s0 = print ConnectingToPostgreSQL s"
  define s1 where "s1 = print SuccessfullyConnected (s0\<lparr>open_connections := Suc (open_connections s0)\<rparr>)"
  define rest where "rest =
     and_then (db_call E Cursor s1) (\<lambda>s.
     and_then (db_call E ExecuteDrop s) (\<lambda>s.
     and_then (db_call E CommitDrop s) (\<lambda>s.
     and_then (db_call E ExecuteCreate s) (\<lambda>s.
     and_then (db_call E CommitCreate s) (\<lambda>s.
     and_then (case deref s (clean_df s) of
                 None \<Rightarrow> Raises TypeError s
               | Some df \<Rightarrow> insert_rows E [0..<len df] s) (\<lambda>s.
     and_then (db_call E CommitInsert s) (\<lambda>s.
     and_then (db_call E ExecuteCount s) (\<lambda>s.
     and_then (db_call E FetchOne s) (\<lambda>s.
     and_then (db_call E CursorClose s) (\<lambda>s.
     and_then (db_call E ConnClose s) (\<lambda>s.
     Returns (s\<lparr>open_connections := open_connections s - 1\<rparr>))))))))))))"
  have body: "db_try_body E s0 = rest"
    using assms(2,3) by (simp add: db_try_body_def db_call_def rest_def s1_def)
  have k: "open_connections s1 = Suc (open_connections s)"
    by (simp add: s1_def s0_def print_def)
  have call: "open_connections (final_state (db_call E op t)) = open_connections t" for op t
    by (simp add: db_call_def)
  have "raised rest \<noteq> None \<longrightarrow> open_connections (final_state rest) = Suc (open_connections s)"
    unfolding rest_def
    by (intro and_then_raised_connections)
      (simp_all add: call k insert_rows_connections split: option.splits)
  with assms(4) body have "open_connections (final_state (db_try_body E s0)) = Suc (open_connections s)"
    by (simp add: s0_def)
  moreover from assms(4) obtain e s' where r: "db_try_body E s0 = Raises e s'"
    by (cases "db_try_body E s0") (auto simp: s0_def)
  moreover have "load_to_database E s = Returns (print (DatabaseLoadFailed e) s')"
    using assms(1) r unfolding s0_def by (rule load_to_database_catches)
  ultimately show ?thesis
    by (simp add: print_def)
qed

lemma insert_rows_succeed: "(\<And>op. \<not> db_fails E op) \<Longrightarrow> insert_rows E ns s = Returns s"
  by (induction ns arbitrary: s) (simp_all add: db_call_def)

lemma connection_closed_on_success:
  assumes "SQLALCHEMY_AVAILABLE E" and "\<And>op. \<not> db_fails E op"
    and "deref s (clean_df s) = Some df"
  shows "open_connections (final_state (load_to_database E s)) = open_connections s"
proof -
  define s0 where "s0 = print ConnectingToPostgreSQL s"
  have "deref (print SuccessfullyConnected (s0\<lparr>open_connections := Suc (open_connections s0)\<rparr>))
      (clean_df s0) = Some df"
    using assms(3) by (simp add: s0_def deref_def print_def split: option.splits)
  then have "open_connections (final_state (db_try_body E s0)) = open_connections s0"
    and "raised (db_try_body E s0) = None"
    using assms(2)
    by (simp_all add: db_try_body_def db_call_def insert_rows_succeed print_def)
  moreover have "open_connections s0 = open_connections s"
    by (simp add: s0_def print_def)
  moreover have "load_to_database E s = Returns (final_state (db_try_body E s0))"
    using assms(1) returns_final_state[OF \<open>raised (db_try_body E s0) = None\<close>]
    unfolding s0_def by (rule load_to_database_passes)
  ultimately show ?thesis
    by simp
qed

text \<open>
  The stage returns whatever happens in it, and the run that has written the CSV file
  returns and reports completion.
\<close>

lemma run_succeeds_after_csv:
  assumes csv: "csv_stages E L s = Returns s1"
  shows "\<exists>s2. run E L load_db s = Returns s2 \<and> files s2 = files s1
          \<and> EtlComplete \<in> set (stdout s2)"
proof (cases load_db)
  case True
  obtain s' where db: "load_to_database E s1 = Returns s'"
    using load_to_database_returns by blast
  have "files s' = files s1"
    using db by (rule load_to_database_files)
  then show ?thesis
    using csv db True by (simp add: run_def Let_def print_def)
next
  case False
  then show ?thesis
    using csv by (simp add: run_def Let_def print_def)
qed


section \<open>The transformed table\<close>

lemma find_filter: "find P xs = Some x \<Longrightarrow> \<exists>ys. filter P xs = x # ys"
  by (induction xs) (auto split: if_splits)

lemma find_None_filter: "find P xs = None \<Longrightarrow> filter P xs = []"
  by (induction xs) (auto split: if_splits)

lemma before_dedup_unfold:
  "before_dedup L raw =
     status_flags L (filter status_like (columns raw))
       (time_features L (filter date_like (columns raw))
         (convert_dates L (filter date_like (columns raw))
           (fill_missing (drop_missing_id (filter id_like (columns raw)) raw))))"
  by (simp add: before_dedup_def Let_def)

lemma rows_transform_subset:
  "set (rows (transform_df L raw)) \<subseteq> set (rows (before_dedup L raw))"
  by (simp add: transform_df_def rows_remove_duplicates set_kept_from)

lemma dtypes_transform_df: "dtypes (transform_df L raw) = dtypes (before_dedup L raw)"
  by (simp add: transform_df_def dtypes_remove_duplicates)

lemma col_dtype_transform_df: "col_dtype (transform_df L raw) c = col_dtype (before_dedup L raw) c"
  by (simp add: col_dtype_def dtypes_transform_df)

lemma col_dtype_status_flags:
  "c \<noteq> ''is_delivered'' \<Longrightarrow> c \<noteq> ''is_late'' \<Longrightarrow> c \<noteq> ''is_on_time'' \<Longrightarrow>
   col_dtype (status_flags L ss df) c = col_dtype df c"
  by (cases ss) (simp_all add: status_flags_def Let_def)

lemma not_status_like_flags:
  "\<not> status_like ''is_delivered''" "\<not> status_like ''is_late''" "\<not> status_like ''is_on_time''"
  by (simp_all add: status_like_def lower_def char_lower_def upper_chars_def lower_chars_def)

lemma cell_of_flags_row:
  "cell_of ''is_delivered'' (flags_row L d sc r)
     = astype_int (str_contains delivered_keywords (lower (astype_str L d (cell_of sc r))))"
  "cell_of ''is_late'' (flags_row L d sc r)
     = astype_int (str_contains late_keywords (lower (astype_str L d (cell_of sc r))))"
  "cell_of ''is_on_time'' (flags_row L d sc r)
     = astype_int (cell_of ''is_delivered'' (flags_row L d sc r) = Num 1
                   \<and> cell_of ''is_late'' (flags_row L d sc r) = Num 0)"
  by (simp_all add: flags_row_def Let_def cell_of_update)

lemma cell_of_flags_row_other:
  "c \<noteq> ''is_delivered'' \<Longrightarrow> c \<noteq> ''is_late'' \<Longrightarrow> c \<noteq> ''is_on_time'' \<Longrightarrow>
   cell_of c (flags_row L d sc r) = cell_of c r"
  by (simp add: flags_row_def Let_def cell_of_update)

section \<open>Cells of the rewritten rows\<close>

lemma to_datetime_idem: "to_datetime L (to_datetime L v) = to_datetime L v"
  by (cases v) (auto split: option.splits)

lemma fill_cell_idem: "fill_cell v (fill_cell v x) = fill_cell v x"
  by (simp add: fill_cell_def isnull_def)

lemma cell_of_fill_row:
  "cell_of c (fill_row fv cs r)
     = (if c \<in> set cs then fill_cell (fv c) (cell_of c r) else cell_of c r)"
  by (induction cs arbitrary: r) (auto simp: fill_row_def cell_of_update fill_cell_idem)

lemma cell_of_dates_row:
  "cell_of c (dates_row L cs r)
     = (if c \<in> set cs then to_datetime L (cell_of c r) else cell_of c r)"
  by (induction cs arbitrary: r) (auto simp: dates_row_def cell_of_update to_datetime_idem)

lemma cell_of_time_row_other:
  "c \<notin> set time_feature_names \<Longrightarrow> cell_of c (time_row L m r) = cell_of c r"
  by (simp add: time_row_def Let_def cell_of_update time_feature_names_def)

lemma cell_of_time_row:
  assumes "m \<notin> set time_feature_names"
  shows "cell_of ''order_year'' (time_row L m r) = dt_year (cell_of m r)"
    and "cell_of ''order_month'' (time_row L m r) = dt_month (cell_of m r)"
    and "cell_of ''order_day_of_week'' (time_row L m r) = dt_dayofweek L (cell_of m r)"
    and "cell_of ''order_day_name'' (time_row L m r) = dt_day_name L (cell_of m r)"
  using assms by (simp_all add: time_row_def Let_def cell_of_update time_feature_names_def)

lemma cell_of_flags_row_keep:
  "\<not> isnull (cell_of c r) \<Longrightarrow> \<not> isnull (cell_of c (flags_row L d sc r))"
  by (simp add: flags_row_def Let_def cell_of_update astype_int_def isnull_def)

section \<open>Columns without missing value\<close>

lemma no_missing_iff: "no_missing c df \<longleftrightarrow> (\<forall>r \<in> set (rows df). \<not> isnull (cell_of c r))"
  by (simp add: no_missing_def list_all_iff)

lemma no_missing_fill_column_keep: "no_missing c df \<Longrightarrow> no_missing c (fill_column c' df)"
  by (auto simp: no_missing_iff rows_fill_column cell_of_update fill_cell_def)

lemma no_missing_fold_fill_keep: "no_missing c df \<Longrightarrow> no_missing c (fold fill_column cs df)"
  by (induction cs arbitrary: df) (simp_all add: no_missing_fill_column_keep)

lemma no_missing_fill_missing_keep: "no_missing c df \<Longrightarrow> no_missing c (fill_missing df)"
  by (simp add: fill_missing_def no_missing_fold_fill_keep)

lemma no_missing_fill_column:
  "fill_value df c \<noteq> NA \<Longrightarrow> no_missing c (fill_column c df)"
  by (auto simp: no_missing_iff rows_fill_column cell_of_update fill_cell_def isnull_def)

lemma no_missing_fold_fill:
  "c \<in> set cs \<Longrightarrow> fill_value df c \<noteq> NA \<Longrightarrow> no_missing c (fold fill_column cs df)"
proof (induction cs arbitrary: df)
  case Nil
  then show ?case by simp
next
  case (Cons c' cs)
  show ?case
  proof (cases "c' = c")
    case True
    with Cons.prems show ?thesis
      by (simp add: no_missing_fill_column no_missing_fold_fill_keep)
  next
    case False
    with Cons.prems have "c \<in> set cs" "fill_value (fill_column c' df) c \<noteq> NA"
      by (simp_all add: fill_value_fill_column_other)
    then show ?thesis
      by (simp add: Cons.IH)
  qed
qed

lemma no_missing_convert_dates:
  "c \<notin> set cs \<Longrightarrow> no_missing c df \<Longrightarrow> no_missing c (convert_dates L cs df)"
  by (simp add: no_missing_iff rows_convert_dates cell_of_dates_row)

lemma no_missing_time_features:
  "ds \<noteq> [] \<longrightarrow> c \<notin> set time_feature_names \<Longrightarrow> no_missing c df \<Longrightarrow>
   no_missing c (time_features L ds df)"
  by (cases ds) (simp_all add: no_missing_iff time_features_Nil rows_time_features_Cons
      cell_of_time_row_other)

lemma no_missing_status_flags:
  "no_missing c df \<Longrightarrow> no_missing c (status_flags L ss df)"
  by (cases ss) (simp_all add: no_missing_iff status_flags_Nil rows_status_flags_Cons
      cell_of_flags_row_keep)

lemma no_missing_remove_duplicates:
  "no_missing c df \<Longrightarrow> no_missing c (remove_duplicates df)"
  by (simp add: no_missing_iff rows_remove_duplicates set_kept_from)

lemma no_missing_after_fill:
  assumes "no_missing c (fill_missing (drop_missing_id (filter id_like (columns raw)) raw))"
    and "\<not> date_like c"
    and "filter date_like (columns raw) \<noteq> [] \<longrightarrow> c \<notin> set time_feature_names"
  shows "no_missing c (transform_df L raw)"
  unfolding transform_df_def before_dedup_unfold
  using assms
  by (intro no_missing_remove_duplicates no_missing_status_flags no_missing_time_features
      no_missing_convert_dates) simp_all

section \<open>The identifier drop\<close>

lemma find_holds: "find P xs = Some x \<Longrightarrow> P x"
  by (induction xs) (auto split: if_splits)

lemma drop_missing_id_first:
  "find id_like (columns raw) = Some c \<Longrightarrow>
   drop_missing_id (filter id_like (columns raw)) raw
     = raw\<lparr>rows := filter (\<lambda>r. \<not> isnull (cell_of c r)) (rows raw)\<rparr>"
  using find_filter[of id_like "columns raw" c]
  by (auto simp: drop_missing_id_def Let_def dropna_def)

lemma drop_missing_id_none:
  "find id_like (columns raw) = None \<Longrightarrow>
   drop_missing_id (filter id_like (columns raw)) raw = raw"
  by (simp add: find_None_filter drop_missing_id_def)

lemma dtypes_drop_missing_id: "dtypes (drop_missing_id cs df) = dtypes df"
  by (simp add: drop_missing_id_def Let_def dropna_def)

lemma columns_drop_missing_id: "columns (drop_missing_id cs df) = columns df"
  by (simp add: columns_def dtypes_drop_missing_id)

lemma col_dtype_drop_missing_id: "col_dtype (drop_missing_id cs df) c = col_dtype df c"
  by (simp add: col_dtype_def dtypes_drop_missing_id)

lemma not_id_like_time_features: "c \<in> set time_feature_names \<Longrightarrow> \<not> id_like c"
  by (auto simp: time_feature_names_def id_like_def lower_def char_lower_def upper_chars_def
      lower_chars_def)

section \<open>Missing values after the fill\<close>

lemma mean2_defined:
  "\<not> (a = PosInf \<and> b = NegInf) \<Longrightarrow> \<not> (a = NegInf \<and> b = PosInf) \<Longrightarrow> mean2 a b \<noteq> None"
  by (cases a; cases b) simp_all

text \<open>
  The median is a number when the column holds a number and not both infinities.
\<close>

lemma median_is_number:
  assumes some: "num_values vs \<noteq> []"
    and one_sign: "PosInf \<notin> set (num_values vs) \<or> NegInf \<notin> set (num_values vs)"
  shows "median vs \<noteq> NA"
proof -
  define s where "s = sort_key number_key (num_values vs)"
  define n where "n = length s"
  have n: "0 < n"
    using some by (simp add: n_def s_def)
  have mem: "s ! i \<in> set (num_values vs)" if "i < n" for i
    using that nth_mem[of i s] by (simp add: n_def s_def)
  have "mean2 (s ! (n div 2 - 1)) (s ! (n div 2)) \<noteq> None"
  proof (rule mean2_defined)
    from n have "n div 2 - 1 < n" and "n div 2 < n"
      by simp_all
    then have "s ! (n div 2 - 1) \<in> set (num_values vs)" and "s ! (n div 2) \<in> set (num_values vs)"
      by (simp_all add: mem)
    with one_sign show "\<not> (s ! (n div 2 - 1) = PosInf \<and> s ! (n div 2) = NegInf)"
      and "\<not> (s ! (n div 2 - 1) = NegInf \<and> s ! (n div 2) = PosInf)"
      by auto
  qed
  then show ?thesis
    using n unfolding median_def Let_def s_def[symmetric] n_def[symmetric]
    by (auto split: option.splits)
qed

text \<open>
  In \<open>ex_inf\<close> the two numbers of \<open>Weight\<close> are infinities of opposite sign: the median
  is \<open>NaN\<close> and the gap stays.
\<close>

lemma gap_left_with_infinities:
  "median (col_values ex_inf ''Weight'') = NA
   \<and> \<not> no_missing ''Weight'' (transform_df iso_pandas ex_inf)"
  by code_simp

lemma median_no_numbers: "num_values vs = [] \<Longrightarrow> median vs = NA"
  by (simp add: median_def)

lemma fill_value_NA_numeric: "fill_value df c = NA \<Longrightarrow> is_numeric_dtype (col_dtype df c)"
  by (auto simp: fill_value_def split: if_splits)

lemma not_date_like_names:
  "c \<in> set time_feature_names \<Longrightarrow> \<not> date_like c"
  "c \<in> set flag_names \<Longrightarrow> \<not> date_like c"
  by (auto simp: time_feature_names_def flag_names_def date_like_def lower_def char_lower_def
      upper_chars_def lower_chars_def)

lemma no_missing_flags:
  "c \<in> set flag_names \<Longrightarrow> no_missing c (status_flags L (sc # ss) df)"
  by (auto simp: no_missing_iff rows_status_flags_Cons flag_names_def cell_of_flags_row
      astype_int_def isnull_def)




section \<open>Association lists, extensionally\<close>

lemma alist_eqI:
  "distinct (map fst xs) \<Longrightarrow> map fst xs = map fst ys \<Longrightarrow>
   (\<And>k. k \<in> set (map fst xs) \<Longrightarrow> map_of xs k = map_of ys k) \<Longrightarrow> xs = ys"
proof (induction xs arbitrary: ys)
  case Nil
  then show ?case by simp
next
  case (Cons x xs)
  from Cons.prems(2) obtain y ys' where ys: "ys = y # ys'" and k: "fst x = fst y"
    and ks: "map fst xs = map fst ys'"
    by (cases ys) auto
  from Cons.prems(3)[of "fst x"] k ys have "snd x = snd y"
    by simp
  with k have xy: "x = y"
    by (simp add: prod_eq_iff)
  have "map_of xs k' = map_of ys' k'" if "k' \<in> set (map fst xs)" for k'
  proof -
    from that Cons.prems(1) have "k' \<noteq> fst x"
      by force
    with Cons.prems(3)[of k'] that ys k show ?thesis
      by simp
  qed
  with Cons.IH[of ys'] Cons.prems(1) ks have "xs = ys'"
    by simp
  with xy ys show ?case by simp
qed

lemma map_of_cell_of: "c \<in> set (map fst r) \<Longrightarrow> map_of r c = Some (cell_of c r)"
  by (cases "map_of r c") (auto simp: cell_of_def map_of_eq_None_iff)

lemma row_eqI:
  assumes "distinct (map fst r)" and "map fst r = map fst r'"
    and "\<And>c. c \<in> set (map fst r) \<Longrightarrow> cell_of c r = cell_of c r'"
  shows "r = r'"
  using assms by (intro alist_eqI) (simp_all add: map_of_cell_of)

lemma map_of_col_dtype:
  "c \<in> set (columns df) \<Longrightarrow> map_of (dtypes df) c = Some (col_dtype df c)"
  by (cases "map_of (dtypes df) c") (auto simp: col_dtype_def columns_def map_of_eq_None_iff)

lemma dtypes_eqI:
  assumes "distinct (columns X)" and "columns X = columns Y"
    and "\<And>c. c \<in> set (columns X) \<Longrightarrow> col_dtype X c = col_dtype Y c"
  shows "dtypes X = dtypes Y"
proof (rule alist_eqI)
  show "distinct (map fst (dtypes X))"
    using assms(1) by (simp add: columns_def)
  show "map fst (dtypes X) = map fst (dtypes Y)"
    using assms(2) by (simp add: columns_def)
  show "map_of (dtypes X) k = map_of (dtypes Y) k" if "k \<in> set (map fst (dtypes X))" for k
  proof -
    from that have kx: "k \<in> set (columns X)"
      by (simp add: columns_def)
    with assms(2) have ky: "k \<in> set (columns Y)"
      by simp
    show ?thesis
      using map_of_col_dtype[OF kx] map_of_col_dtype[OF ky] assms(3)[OF kx] by simp
  qed
qed

section \<open>Keys and columns\<close>

lemma keys_update: "map fst (AList.update c v r) = add_key c (map fst r)"
  by (simp add: update_keys add_key_def)

lemma columns_setitem: "columns (setitem c d vs df) = add_key c (columns df)"
  by (simp add: columns_def update_keys add_key_def)

lemma distinct_add_key: "distinct ks \<Longrightarrow> distinct (add_key c ks)"
  by (simp add: add_key_def)

lemma add_key_present: "c \<in> set ks \<Longrightarrow> add_key c ks = ks"
  by (simp add: add_key_def)

lemma set_add_key: "set (add_key c ks) = insert c (set ks)"
  by (auto simp: add_key_def)

lemma wf_df_setitem:
  assumes "wf_df df" and "length vs = length (rows df)"
  shows "wf_df (setitem c d vs df)"
proof -
  have "map fst (AList.update c v r) = columns (setitem c d vs df)"
    if "r \<in> set (rows df)" for v r
    using that assms(1) by (simp add: wf_df_def list_all_iff keys_update columns_setitem)
  moreover have "distinct (columns (setitem c d vs df))"
    using assms(1) by (simp add: wf_df_def columns_setitem distinct_add_key)
  ultimately show ?thesis
    by (auto simp: wf_df_def list_all_iff setitem_def columns_def dest: set_zip_rightD)
qed

lemma wf_df_map_rows:
  assumes "wf_df df" and "columns df' = g (columns df)" and "rows df' = map f (rows df)"
    and "\<And>r. map fst (f r) = g (map fst r)" and "\<And>ks. distinct ks \<Longrightarrow> distinct (g ks)"
  shows "wf_df df'"
  using assms by (auto simp: wf_df_def list_all_iff)

lemma keys_time_row:
  "map fst (time_row L m r)
     = add_key ''order_day_name'' (add_key ''order_day_of_week''
         (add_key ''order_month'' (add_key ''order_year'' (map fst r))))"
  by (simp add: time_row_def Let_def keys_update)

lemma columns_time_features_Cons:
  "columns (time_features L (m # ds) df)
     = add_key ''order_day_name'' (add_key ''order_day_of_week''
         (add_key ''order_month'' (add_key ''order_year'' (columns df))))"
  by (simp add: time_features_def Let_def columns_setitem)

lemma keys_flags_row:
  "map fst (flags_row L d sc r)
     = add_key ''is_on_time'' (add_key ''is_late'' (add_key ''is_delivered'' (map fst r)))"
  by (simp add: flags_row_def Let_def keys_update)

lemma columns_status_flags_Cons:
  "columns (status_flags L (sc # ss) df)
     = add_key ''is_on_time'' (add_key ''is_late'' (add_key ''is_delivered'' (columns df)))"
  by (simp add: status_flags_def Let_def columns_setitem)

lemma wf_df_fill_column: "wf_df df \<Longrightarrow> wf_df (fill_column col df)"
  by (simp add: fill_column_def Let_def wf_df_setitem fillna_def col_values_def)

lemma wf_df_fold_fill_column: "wf_df df \<Longrightarrow> wf_df (fold fill_column cs df)"
  by (induction cs arbitrary: df) (simp_all add: wf_df_fill_column)

lemma wf_df_fill_missing: "wf_df df \<Longrightarrow> wf_df (fill_missing df)"
  by (simp add: fill_missing_def wf_df_fold_fill_column)

lemma wf_df_convert_dates: "wf_df df \<Longrightarrow> wf_df (convert_dates L cs df)"
  unfolding convert_dates_def
  by (induction cs arbitrary: df) (simp_all add: convert_date_def wf_df_setitem col_values_def)

lemma wf_df_time_features:
  assumes "wf_df df"
  shows "wf_df (time_features L ds df)"
proof (cases ds)
  case Nil
  with assms show ?thesis by (simp add: time_features_Nil)
next
  case (Cons m ds')
  show ?thesis
    unfolding Cons using assms
    by (rule wf_df_map_rows[OF _ columns_time_features_Cons rows_time_features_Cons
          keys_time_row]) (intro distinct_add_key)
qed

lemma wf_df_status_flags:
  assumes "wf_df df"
  shows "wf_df (status_flags L ss df)"
proof (cases ss)
  case Nil
  with assms show ?thesis by (simp add: status_flags_Nil)
next
  case (Cons sc ss')
  show ?thesis
    unfolding Cons using assms
    by (rule wf_df_map_rows[OF _ columns_status_flags_Cons rows_status_flags_Cons
          keys_flags_row]) (intro distinct_add_key)
qed

lemma wf_df_derive: "wf_df df \<Longrightarrow> wf_df (derive L ds ss df)"
  by (simp add: derive_def wf_df_status_flags wf_df_time_features wf_df_convert_dates
      wf_df_fill_missing)

lemma wf_df_drop_missing_id: "wf_df df \<Longrightarrow> wf_df (drop_missing_id cs df)"
  by (simp add: drop_missing_id_def Let_def dropna_def wf_df_def columns_def list_all_iff)

lemma wf_df_remove_duplicates: "wf_df df \<Longrightarrow> wf_df (remove_duplicates df)"
  using set_kept_from[of "[]" "rows df"]
  by (auto simp: wf_df_def list_all_iff columns_def rows_remove_duplicates
      dtypes_remove_duplicates)

lemma before_dedup_derive:
  "before_dedup L raw =
     derive L (filter date_like (columns raw)) (filter status_like (columns raw))
       (drop_missing_id (filter id_like (columns raw)) raw)"
  by (simp add: before_dedup_unfold derive_def)

lemma wf_df_transform_df: "wf_df raw \<Longrightarrow> wf_df (transform_df L raw)"
  by (simp add: transform_df_def before_dedup_derive wf_df_remove_duplicates wf_df_derive
      wf_df_drop_missing_id)

section \<open>The derived table, column by column\<close>

lemma base_cell_eq:
  "cell_of c (dates_row L ds (fill_row fv cols r)) = base_cell L fv cols ds c r"
  by (simp add: base_cell_def Let_def cell_of_dates_row cell_of_fill_row)

lemma astype_int_eq:
  "astype_int b = Num 1 \<longleftrightarrow> b" "astype_int b = Num 0 \<longleftrightarrow> \<not> b"
  by (simp_all add: astype_int_def)

lemma cell_of_flags_row_flag:
  assumes "c \<in> set flag_names"
  shows "cell_of c (flags_row L d sc r) = flag_cell c (lower (astype_str L d (cell_of sc r)))"
proof -
  from assms consider "c = ''is_delivered''" | "c = ''is_late''" | "c = ''is_on_time''"
    by (auto simp: flag_names_def)
  then show ?thesis
  proof cases
    case 1
    then show ?thesis by (simp add: flag_cell_def cell_of_flags_row(1))
  next
    case 2
    then show ?thesis by (simp add: flag_cell_def cell_of_flags_row(2))
  next
    case 3
    have "cell_of ''is_on_time'' (flags_row L d sc r)
        = astype_int (str_contains delivered_keywords (lower (astype_str L d (cell_of sc r)))
            \<and> \<not> str_contains late_keywords (lower (astype_str L d (cell_of sc r))))"
      unfolding cell_of_flags_row(3) cell_of_flags_row(1) cell_of_flags_row(2) astype_int_eq
      by (rule refl)
    with 3 show ?thesis by (simp add: flag_cell_def)
  qed
qed

lemma cell_of_time_row_feature:
  assumes m: "m \<notin> set time_feature_names" and "c \<in> set time_feature_names"
  shows "cell_of c (time_row L m r) = time_cell L c (cell_of m r)"
proof -
  from assms(2) consider "c = ''order_year''" | "c = ''order_month''"
    | "c = ''order_day_of_week''" | "c = ''order_day_name''"
    by (auto simp: time_feature_names_def)
  then show ?thesis
  proof cases
    case 1
    then show ?thesis by (simp add: time_cell_def cell_of_time_row(1)[OF m])
  next
    case 2
    then show ?thesis by (simp add: time_cell_def cell_of_time_row(2)[OF m])
  next
    case 3
    then show ?thesis by (simp add: time_cell_def cell_of_time_row(3)[OF m])
  next
    case 4
    then show ?thesis by (simp add: time_cell_def cell_of_time_row(4)[OF m])
  qed
qed

lemma cell_of_flags_row_other':
  "c \<notin> set flag_names \<Longrightarrow> cell_of c (flags_row L d sc r) = cell_of c r"
  by (simp add: cell_of_flags_row_other flag_names_def)

lemma cell_of_derive_row:
  assumes "\<And>x. x \<in> set ds \<Longrightarrow> x \<notin> set time_feature_names \<and> x \<notin> set flag_names"
    and "\<And>x. x \<in> set ss \<Longrightarrow> x \<notin> set time_feature_names \<and> x \<notin> set flag_names"
  shows "cell_of c (derive_row L fv cols ds ss d r) =
     (if ss \<noteq> [] \<and> c \<in> set flag_names
      then flag_cell c (lower (astype_str L d (base_cell L fv cols ds (hd ss) r)))
      else if ds \<noteq> [] \<and> c \<in> set time_feature_names
      then time_cell L c (base_cell L fv cols ds (hd ds) r)
      else base_cell L fv cols ds c r)"
proof -
  define b where "b = dates_row L ds (fill_row fv cols r)"
  define t where "t = (case ds of [] \<Rightarrow> b | m # _ \<Rightarrow> time_row L m b)"
  have dN: "derive_row L fv cols ds [] d r = t"
    unfolding derive_row_def Let_def t_def b_def by simp
  have dC: "derive_row L fv cols ds (sc # ss') d r = flags_row L d sc t" for sc ss'
    unfolding derive_row_def Let_def t_def b_def by simp
  have bc: "cell_of x b = base_cell L fv cols ds x r" for x
    by (simp add: b_def base_cell_eq)
  have tc: "cell_of x t =
      (if ds \<noteq> [] \<and> x \<in> set time_feature_names then time_cell L x (base_cell L fv cols ds (hd ds) r)
       else base_cell L fv cols ds x r)" for x
  proof (cases ds)
    case Nil
    then show ?thesis by (simp add: t_def bc)
  next
    case (Cons m ds')
    with assms(1)[of m] have "m \<notin> set time_feature_names"
      by simp
    then show ?thesis
      by (simp add: t_def Cons bc cell_of_time_row_feature cell_of_time_row_other)
  qed
  show ?thesis
  proof (cases ss)
    case Nil
    show ?thesis unfolding Nil dN by (simp add: tc)
  next
    case (Cons sc ss')
    with assms(2)[of sc] have sc: "sc \<notin> set time_feature_names" "sc \<notin> set flag_names"
      by simp_all
    have "cell_of sc t = base_cell L fv cols ds sc r"
      by (simp add: tc sc)
    then show ?thesis
      unfolding Cons dC by (simp add: cell_of_flags_row_flag cell_of_flags_row_other' tc)
  qed
qed

section \<open>Dtypes of the steps\<close>

lemma col_dtype_fill_column:
  "col_dtype (fill_column col df) c = (if c = col then fill_dtype df col else col_dtype df c)"
  by (simp add: fill_column_def Let_def fill_dtype_def)

lemma fill_dtype_fill_column_other:
  "c \<noteq> col \<Longrightarrow> fill_dtype (fill_column col df) c = fill_dtype df c"
  by (simp add: fill_dtype_def col_values_fill_column_other col_dtype_fill_column_other)

lemma col_dtype_fold_fill_column:
  "distinct cs \<Longrightarrow>
   col_dtype (fold fill_column cs df) c = (if c \<in> set cs then fill_dtype df c else col_dtype df c)"
proof (induction cs arbitrary: df)
  case Nil
  then show ?case by simp
next
  case (Cons c' cs)
  have "fill_dtype (fill_column c' df) c = fill_dtype df c" if "c \<in> set cs"
    using that Cons.prems by (intro fill_dtype_fill_column_other) auto
  with Cons show ?case
    by (auto simp: col_dtype_fill_column)
qed

lemma col_dtype_fill_missing:
  "distinct (columns df) \<Longrightarrow>
   col_dtype (fill_missing df) c
     = (if c \<in> set (columns df) then fill_dtype df c else col_dtype df c)"
  by (simp add: fill_missing_def col_dtype_fold_fill_column)

lemma col_dtype_convert_dates:
  "col_dtype (convert_dates L cs df) c = (if c \<in> set cs then Datetime else col_dtype df c)"
  unfolding convert_dates_def
  by (induction cs arbitrary: df) (auto simp: convert_date_def)

lemma col_dtype_time_features:
  "col_dtype (time_features L ds df) c
     = (if ds \<noteq> [] \<and> c \<in> set time_feature_names then time_dtype c else col_dtype df c)"
  by (cases ds) (auto simp: time_features_def Let_def time_feature_names_def time_dtype_def)

lemma col_dtype_status_flags':
  "col_dtype (status_flags L ss df) c
     = (if ss \<noteq> [] \<and> c \<in> set flag_names then Numeric else col_dtype df c)"
  by (cases ss) (auto simp: status_flags_def Let_def flag_names_def)

lemma col_dtype_derive:
  "distinct (columns df) \<Longrightarrow>
   col_dtype (derive L ds ss df) c =
     (if ss \<noteq> [] \<and> c \<in> set flag_names then Numeric
      else if ds \<noteq> [] \<and> c \<in> set time_feature_names then time_dtype c
      else base_dtype df ds c)"
  by (simp add: derive_def col_dtype_status_flags' col_dtype_time_features
      col_dtype_convert_dates col_dtype_fill_missing base_dtype_def)

section \<open>Rows of the derived table\<close>

lemma rows_derive:
  assumes "distinct (columns df)"
  shows "rows (derive L ds ss df)
     = map (derive_row L (fill_value df) (columns df) ds ss
              (col_dtype (time_features L ds (convert_dates L ds (fill_missing df))) (hd ss)))
         (rows df)"
proof -
  define D where "D = time_features L ds (convert_dates L ds (fill_missing df))"
  have rD: "rows D = map (\<lambda>r. case ds of [] \<Rightarrow> dates_row L ds (fill_row (fill_value df) (columns df) r)
      | m # _ \<Rightarrow> time_row L m (dates_row L ds (fill_row (fill_value df) (columns df) r))) (rows df)"
    unfolding D_def using assms
    by (cases ds)
      (simp_all add: time_features_Nil rows_time_features_Cons rows_convert_dates
        rows_fill_missing comp_def)
  have "rows (status_flags L ss D)
      = map (\<lambda>r. case ss of [] \<Rightarrow> r | sc # _ \<Rightarrow> flags_row L (col_dtype D (hd ss)) sc r) (rows D)"
    by (cases ss) (simp_all add: status_flags_Nil rows_status_flags_Cons)
  then show ?thesis
    unfolding derive_def D_def[symmetric] rD
    by (simp add: derive_row_def Let_def comp_def)
qed

section \<open>Columns of the derived table\<close>

lemma columns_fill_column: "col \<in> set (columns df) \<Longrightarrow> columns (fill_column col df) = columns df"
  by (simp add: fill_column_def Let_def columns_setitem add_key_present)

lemma columns_fold_fill_column:
  "set cs \<subseteq> set (columns df) \<Longrightarrow> columns (fold fill_column cs df) = columns df"
  by (induction cs arbitrary: df) (simp_all add: columns_fill_column)

lemma columns_fill_missing: "columns (fill_missing df) = columns df"
  by (simp add: fill_missing_def columns_fold_fill_column)

lemma columns_convert_dates:
  "set cs \<subseteq> set (columns df) \<Longrightarrow> columns (convert_dates L cs df) = columns df"
  unfolding convert_dates_def
  by (induction cs arbitrary: df) (simp_all add: convert_date_def columns_setitem add_key_present)

lemma columns_time_features:
  "columns (time_features L ds df)
     = (if ds = [] then columns df
        else add_key ''order_day_name'' (add_key ''order_day_of_week''
               (add_key ''order_month'' (add_key ''order_year'' (columns df)))))"
  by (cases ds) (simp_all add: time_features_Nil columns_time_features_Cons)

lemma columns_status_flags:
  "columns (status_flags L ss df)
     = (if ss = [] then columns df
        else add_key ''is_on_time'' (add_key ''is_late'' (add_key ''is_delivered'' (columns df))))"
  by (cases ss) (simp_all add: status_flags_Nil columns_status_flags_Cons)

lemma columns_derive:
  assumes "set ds \<subseteq> set (columns df)"
  shows "columns (derive L ds ss df)
     = (let cs = (if ds = [] then columns df
                  else add_key ''order_day_name'' (add_key ''order_day_of_week''
                         (add_key ''order_month'' (add_key ''order_year'' (columns df)))))
        in if ss = [] then cs
           else add_key ''is_on_time'' (add_key ''is_late'' (add_key ''is_delivered'' cs)))"
  using assms
  by (simp add: derive_def columns_status_flags columns_time_features columns_convert_dates
      columns_fill_missing Let_def)

lemma set_columns_derive:
  assumes "set ds \<subseteq> set (columns df)"
  shows "set (columns (derive L ds ss df))
     = set (columns df) \<union> (if ds = [] then {} else set time_feature_names)
         \<union> (if ss = [] then {} else set flag_names)"
  by (auto simp: columns_derive[OF assms] Let_def set_add_key time_feature_names_def
      flag_names_def)

lemma filter_add_key: "\<not> P c \<Longrightarrow> filter P (add_key c ks) = filter P ks"
  by (simp add: add_key_def)

lemma filter_columns_derive:
  assumes "set ds \<subseteq> set (columns df)"
    and "\<And>c. c \<in> set time_feature_names \<Longrightarrow> \<not> P c"
    and "\<And>c. c \<in> set flag_names \<Longrightarrow> \<not> P c"
  shows "filter P (columns (derive L ds ss df)) = filter P (columns df)"
  using assms(2,3)
  by (simp add: columns_derive[OF assms(1)] Let_def filter_add_key time_feature_names_def
      flag_names_def)

lemma columns_derive_same:
  assumes "set ds \<subseteq> set (columns df)"
    and "ds \<noteq> [] \<Longrightarrow> set time_feature_names \<subseteq> set (columns df)"
    and "ss \<noteq> [] \<Longrightarrow> set flag_names \<subseteq> set (columns df)"
  shows "columns (derive L ds ss df) = columns df"
  using assms(2,3)
  by (simp add: columns_derive[OF assms(1)] Let_def add_key_present time_feature_names_def
      flag_names_def)

section \<open>A second run of the derivation\<close>

lemma fill_cell_NA: "fill_cell v x = NA \<longleftrightarrow> v = NA \<and> x = NA"
  by (auto simp: fill_cell_def isnull_def)

lemma fill_cell_keep: "x \<noteq> NA \<Longrightarrow> fill_cell v x = x"
  by (simp add: fill_cell_def isnull_def)

lemma fill_cell_NA_value: "fill_cell NA x = x"
  by (simp add: fill_cell_def isnull_def)

lemma to_datetime_refill:
  assumes "to_datetime_str L ''Unknown'' = None"
  shows "to_datetime L (fill_cell (Str ''Unknown'') (to_datetime L v)) = to_datetime L v"
  using assms by (cases v) (auto simp: fill_cell_def isnull_def split: option.splits)

lemma distinct_no_duplicated:
  "distinct rs \<Longrightarrow> set rs \<inter> set seen = {} \<Longrightarrow>
   filter (\<lambda>d. d) (duplicated_from seen rs) = []"
  by (induction rs arbitrary: seen) auto

lemma remove_duplicates_distinct: "distinct (rows df) \<Longrightarrow> remove_duplicates df = df"
  by (simp add: remove_duplicates_def Let_def duplicated_def distinct_no_duplicated)

lemma dataframe_eqI: "dtypes X = dtypes Y \<Longrightarrow> rows X = rows Y \<Longrightarrow> X = (Y :: dataframe)"
  by simp

lemma base_col_role:
  "c \<notin> set time_feature_names \<Longrightarrow> c \<notin> set flag_names \<Longrightarrow> base_col ds ss c"
  by (simp add: base_col_def)

lemma derive_second_run:
  assumes wfA: "wf_df A"
    and ds_cols: "set ds \<subseteq> set (columns A)"
    and ss_cols: "set ss \<subseteq> set (columns A)"
    and dsn: "\<And>x. x \<in> set ds \<Longrightarrow> x \<notin> set time_feature_names \<and> x \<notin> set flag_names"
    and ssn: "\<And>x. x \<in> set ss \<Longrightarrow> x \<notin> set time_feature_names \<and> x \<notin> set flag_names"
    and unk: "to_datetime_str L ''Unknown'' = None"
    and T: "T = remove_duplicates (derive L ds ss A)"
    and settled: "\<And>c. c \<in> set (columns T) \<Longrightarrow> base_col ds ss c \<Longrightarrow> c \<notin> set ds \<Longrightarrow>
        is_numeric_dtype (col_dtype T c) \<Longrightarrow>
        no_missing c T \<or> num_values (col_values T c) = []"
  shows "derive L ds ss T = T"
proof -
  define E where "E = derive L ds ss A"
  define fvA where "fvA = fill_value A"
  define dA where "dA = col_dtype (time_features L ds (convert_dates L ds (fill_missing A))) (hd ss)"
  define X where "X = derive L ds ss T"
  define dT where "dT = col_dtype (time_features L ds (convert_dates L ds (fill_missing T))) (hd ss)"
  have wfE: "wf_df E"
    unfolding E_def using wfA by (rule wf_df_derive)
  have wfT: "wf_df T"
    unfolding T E_def[symmetric] using wfE by (rule wf_df_remove_duplicates)
  have wfX: "wf_df X"
    unfolding X_def using wfT by (rule wf_df_derive)
  have dcA: "distinct (columns A)" and dcT: "distinct (columns T)"
    using wfA wfT by (simp_all add: wf_df_def)
  have colsT: "columns T = columns E"
    by (simp add: T E_def columns_def dtypes_remove_duplicates)
  have dtT: "col_dtype T c = col_dtype E c" for c
    by (simp add: T E_def col_dtype_def dtypes_remove_duplicates)
  have set_colsT: "set (columns T) = set (columns A)
      \<union> (if ds = [] then {} else set time_feature_names)
      \<union> (if ss = [] then {} else set flag_names)"
    unfolding colsT E_def by (rule set_columns_derive[OF ds_cols])
  have base_in_A: "c \<in> set (columns A)" if "c \<in> set (columns T)" "base_col ds ss c" for c
    using that unfolding set_colsT base_col_def by (auto split: if_splits)
  have rowsE: "rows E = map (derive_row L fvA (columns A) ds ss dA) (rows A)"
    unfolding E_def fvA_def dA_def using dcA by (rule rows_derive)
  have rowsT: "set (rows T) \<subseteq> set (rows E)"
    by (simp add: T E_def rows_remove_duplicates set_kept_from)
  have from_A: "\<exists>a \<in> set (rows A). r = derive_row L fvA (columns A) ds ss dA a"
    if "r \<in> set (rows T)" for r
    using that rowsT rowsE by auto
  have cell_base: "cell_of c (derive_row L fvA (columns A) ds ss dA a)
      = base_cell L fvA (columns A) ds c a" if "base_col ds ss c" for c a
    using that by (auto simp: cell_of_derive_row[OF dsn ssn] base_col_def)
  have dtype_base: "col_dtype T c = base_dtype A ds c" if "base_col ds ss c" for c
    using that by (auto simp: dtT E_def col_dtype_derive[OF dcA] base_col_def)

  text \<open>A base column that is not date-like holds the filled values of the first run.\<close>
  have filled: "cell_of c r = fill_cell (fvA c) (cell_of c a)"
    if "r = derive_row L fvA (columns A) ds ss dA a" "base_col ds ss c" "c \<in> set (columns T)"
      "c \<notin> set ds" for c r a
    using that base_in_A[of c] by (simp add: cell_base base_cell_def Let_def)

  text \<open>The fill of the second run changes no base column that is not date-like.\<close>
  have refill: "fill_cell (fill_value T c) (cell_of c r) = cell_of c r"
    if r: "r \<in> set (rows T)" and b: "base_col ds ss c" and cT: "c \<in> set (columns T)"
      and nd: "c \<notin> set ds" for c r
  proof (cases "cell_of c r = NA")
    case False
    then show ?thesis by (rule fill_cell_keep)
  next
    case True
    from from_A[OF r] obtain a where a: "a \<in> set (rows A)"
      and ra: "r = derive_row L fvA (columns A) ds ss dA a"
      by blast
    from filled[OF ra b cT nd] True have "fill_cell (fvA c) (cell_of c a) = NA"
      by simp
    then have "fvA c = NA"
      by (simp add: fill_cell_NA)
    then have num: "is_numeric_dtype (col_dtype A c)"
      unfolding fvA_def by (rule fill_value_NA_numeric)
    have cA: "c \<in> set (columns A)"
      using cT b by (rule base_in_A)
    have "col_dtype T c = col_dtype A c"
      using num nd cA by (simp add: dtype_base[OF b] base_dtype_def fill_dtype_def)
    with num have numT: "is_numeric_dtype (col_dtype T c)"
      by simp
    have "\<not> no_missing c T"
      using r True by (auto simp: no_missing_iff isnull_def)
    with settled[OF cT b nd numT] have "num_values (col_values T c) = []"
      by simp
    with numT have "fill_value T c = NA"
      by (simp add: fill_value_def median_no_numbers)
    with True show ?thesis
      by (simp add: fill_cell_NA_value)
  qed

  text \<open>Fill and date conversion of the second run restore every base column.\<close>
  have rebase: "base_cell L (fill_value T) (columns T) ds c r = cell_of c r"
    if r: "r \<in> set (rows T)" and b: "base_col ds ss c" and cT: "c \<in> set (columns T)" for c r
  proof (cases "c \<in> set ds")
    case False
    with refill[OF r b cT] cT show ?thesis
      by (simp add: base_cell_def Let_def)
  next
    case True
    from from_A[OF r] obtain a where ra: "r = derive_row L fvA (columns A) ds ss dA a"
      by blast
    have "col_dtype T c = Datetime"
      using True by (simp add: dtype_base[OF b] base_dtype_def)
    then have fv: "fill_value T c = Str ''Unknown''"
      by (simp add: fill_value_def is_numeric_dtype_def)
    have "cell_of c r = to_datetime L
        (if c \<in> set (columns A) then fill_cell (fvA c) (cell_of c a) else cell_of c a)"
      using True by (simp add: ra cell_base[OF b] base_cell_def Let_def)
    then show ?thesis
      using True cT by (simp add: base_cell_def Let_def fv to_datetime_refill[OF unk])
  qed

  text \<open>The dtype of a base column survives the second run.\<close>
  have redtype: "base_dtype T ds c = col_dtype T c"
    if b: "base_col ds ss c" and cT: "c \<in> set (columns T)" for c
  proof (cases "c \<in> set ds")
    case True
    then show ?thesis by (simp add: dtype_base[OF b] base_dtype_def)
  next
    case False
    have "fillna_dtype (col_dtype T c) (col_values T c) = col_dtype T c"
    proof (cases "col_dtype T c = Datetime")
      case dt: True
      have cA: "c \<in> set (columns A)"
        using cT b by (rule base_in_A)
      from dt have "fill_dtype A c = Datetime"
        using False cA by (simp add: dtype_base[OF b] base_dtype_def)
      then have "\<not> is_numeric_dtype (col_dtype A c)"
        by (auto simp: fill_dtype_def is_numeric_dtype_def split: if_splits)
      then have fvA: "fvA c = Str ''Unknown''"
        by (simp add: fvA_def fill_value_def)
      have "\<not> isnull v" if "v \<in> set (col_values T c)" for v
      proof -
        from that obtain r' where r': "r' \<in> set (rows T)" and v: "v = cell_of c r'"
          by (auto simp: col_values_def)
        from from_A[OF r'] obtain a' where
          ra': "r' = derive_row L fvA (columns A) ds ss dA a'"
          by blast
        from filled[OF ra' b cT False] show ?thesis
          by (simp add: v fvA fill_cell_def isnull_def)
      qed
      then have "\<not> list_ex isnull (col_values T c)"
        by (simp add: list_ex_iff)
      then show ?thesis
        by (simp add: fillna_dtype_def)
    next
      case False
      then show ?thesis by (simp add: fillna_dtype_def)
    qed
    then show ?thesis
      using False cT by (simp add: base_dtype_def fill_dtype_def)
  qed

  have ds_T: "set ds \<subseteq> set (columns T)" and ss_T: "set ss \<subseteq> set (columns T)"
    using ds_cols ss_cols unfolding set_colsT by auto
  have colsX: "columns X = columns T"
    unfolding X_def
  proof (rule columns_derive_same[OF ds_T])
    show "set time_feature_names \<subseteq> set (columns T)" if "ds \<noteq> []"
      using that unfolding set_colsT by auto
    show "set flag_names \<subseteq> set (columns T)" if "ss \<noteq> []"
      using that unfolding set_colsT by auto
  qed
  have dtypeX: "col_dtype X c = col_dtype T c" if cT: "c \<in> set (columns T)" for c
  proof (cases "base_col ds ss c")
    case True
    then have "col_dtype X c = base_dtype T ds c"
      by (auto simp: X_def col_dtype_derive[OF dcT] base_col_def)
    with redtype[OF True cT] show ?thesis by simp
  next
    case False
    then show ?thesis
      by (auto simp: X_def dtT E_def col_dtype_derive[OF dcT] col_dtype_derive[OF dcA]
          base_col_def)
  qed
  have dtypes: "dtypes X = dtypes T"
    using wfX colsX dtypeX by (intro dtypes_eqI) (simp_all add: wf_df_def)

  have hd_ss: "hd ss \<in> set ss" if "ss \<noteq> []"
    using that by simp
  have hd_ds: "hd ds \<in> set ds" if "ds \<noteq> []"
    using that by simp
  have d_eq: "dT = dA" if "ss \<noteq> []"
  proof -
    from hd_ss[OF that] ssn have nf: "hd ss \<notin> set flag_names" and nt: "hd ss \<notin> set time_feature_names"
      by blast+
    then have b: "base_col ds ss (hd ss)"
      by (intro base_col_role)
    have cT: "hd ss \<in> set (columns T)"
      using hd_ss[OF that] ss_T by blast
    have "dT = col_dtype X (hd ss)"
      using nf by (simp add: dT_def X_def derive_def col_dtype_status_flags')
    also have "\<dots> = col_dtype T (hd ss)"
      using cT by (rule dtypeX)
    also have "\<dots> = dA"
      using nf by (simp add: dtT E_def dA_def derive_def col_dtype_status_flags')
    finally show ?thesis .
  qed
  have rowsX: "rows X = map (derive_row L (fill_value T) (columns T) ds ss dT) (rows T)"
    unfolding X_def dT_def using dcT by (rule rows_derive)
  have same_row: "derive_row L (fill_value T) (columns T) ds ss dT r = r"
    if r: "r \<in> set (rows T)" for r
  proof (rule row_eqI[symmetric])
    from r wfT have keys: "map fst r = columns T"
      by (simp add: wf_df_def list_all_iff)
    show "distinct (map fst r)"
      using keys dcT by simp
    have "derive_row L (fill_value T) (columns T) ds ss dT r \<in> set (rows X)"
      using r by (simp add: rowsX)
    with wfX have "map fst (derive_row L (fill_value T) (columns T) ds ss dT r) = columns X"
      by (simp add: wf_df_def list_all_iff)
    then show "map fst r = map fst (derive_row L (fill_value T) (columns T) ds ss dT r)"
      by (simp add: keys colsX)
    show "cell_of c r = cell_of c (derive_row L (fill_value T) (columns T) ds ss dT r)"
      if "c \<in> set (map fst r)" for c
    proof -
      from that keys have cT: "c \<in> set (columns T)"
        by simp
      from from_A[OF r] obtain a where ra: "r = derive_row L fvA (columns A) ds ss dA a"
        by blast
      have first: "cell_of x r = base_cell L fvA (columns A) ds x a" if "base_col ds ss x" for x
        using that by (simp add: ra cell_base)
      have second: "base_cell L (fill_value T) (columns T) ds x r = base_cell L fvA (columns A) ds x a"
        if "base_col ds ss x" "x \<in> set (columns T)" for x
        using rebase[OF r that] first[OF that(1)] by simp
      have s_ss: "base_cell L (fill_value T) (columns T) ds (hd ss) r
          = base_cell L fvA (columns A) ds (hd ss) a" if "ss \<noteq> []"
        using hd_ss[OF that] ssn ss_T by (intro second base_col_role) blast+
      have s_ds: "base_cell L (fill_value T) (columns T) ds (hd ds) r
          = base_cell L fvA (columns A) ds (hd ds) a" if "ds \<noteq> []"
        using hd_ds[OF that] dsn ds_T by (intro second base_col_role) blast+
      have s_c: "base_cell L (fill_value T) (columns T) ds c r
          = base_cell L fvA (columns A) ds c a" if "base_col ds ss c"
        using that cT by (rule second)
      have "cell_of c (derive_row L (fill_value T) (columns T) ds ss dT r)
          = cell_of c (derive_row L fvA (columns A) ds ss dA a)"
        using s_ss s_ds s_c d_eq
        by (auto simp: cell_of_derive_row[OF dsn ssn] base_col_def)
      then show ?thesis
        by (simp add: ra)
    qed
  qed
  have "rows X = rows T"
    unfolding rowsX using same_row by (simp add: map_idI)
  with dtypes have "X = T"
    by (rule dataframe_eqI)
  then show ?thesis
    by (simp add: X_def)
qed

lemma not_id_like_flags: "c \<in> set flag_names \<Longrightarrow> \<not> id_like c"
  by (auto simp: flag_names_def id_like_def lower_def char_lower_def upper_chars_def
      lower_chars_def)

lemma not_status_like_names:
  "c \<in> set time_feature_names \<Longrightarrow> \<not> status_like c"
  "c \<in> set flag_names \<Longrightarrow> \<not> status_like c"
  by (auto simp: time_feature_names_def flag_names_def status_like_def lower_def char_lower_def
      upper_chars_def lower_chars_def)

lemma filter_Cons_find: "filter P xs = x # ys \<Longrightarrow> find P xs = Some x"
  by (induction xs) (auto split: if_splits)

lemma dropna_no_missing: "no_missing c df \<Longrightarrow> dropna [c] df = df"
  by (simp add: dropna_def no_missing_def list_all_iff)

lemma drop_missing_id_no_missing:
  assumes "case find id_like (columns raw) of None \<Rightarrow> True | Some c \<Rightarrow> no_missing c df"
  shows "drop_missing_id (filter id_like (columns raw)) df = df"
proof (cases "filter id_like (columns raw)")
  case Nil
  then show ?thesis by (simp add: drop_missing_id_def)
next
  case (Cons c cs)
  then have "find id_like (columns raw) = Some c"
    by (rule filter_Cons_find)
  with assms have "no_missing c df"
    by simp
  then show ?thesis
    by (simp add: drop_missing_id_def Let_def Cons dropna_no_missing)
qed

section \<open>Tables without infinities of both signs\<close>

lemma set_num_values: "set (num_values vs) = {n. Number n \<in> set vs}"
  by (induction vs rule: num_values.induct) auto

lemma num_values_mono: "set vs \<subseteq> set ws \<Longrightarrow> set (num_values vs) \<subseteq> set (num_values ws)"
  by (auto simp: set_num_values)

lemma num_values_empty_mono:
  assumes "set vs \<subseteq> set ws" and "num_values ws = []"
  shows "num_values vs = []"
proof -
  from assms(1) have "set (num_values vs) \<subseteq> set (num_values ws)"
    by (rule num_values_mono)
  with assms(2) show ?thesis
    by simp
qed

lemma rows_drop_missing_id: "set (rows (drop_missing_id cs df)) \<subseteq> set (rows df)"
  by (auto simp: drop_missing_id_def Let_def dropna_def)

lemma col_values_drop_missing_id:
  "set (col_values (drop_missing_id cs df) c) \<subseteq> set (col_values df c)"
  using rows_drop_missing_id[of cs df] by (auto simp: col_values_def)

text \<open>
  When no numeric column of the raw table holds infinities of both signs, every median
  of the first run is a number or the column has no number at all, and the columns that
  a second run fills again are settled.
\<close>

lemma gaps_settled_transform:
  assumes wf: "wf_df raw"
    and one_sign: "\<And>c. c \<in> set (columns raw) \<Longrightarrow> is_numeric_dtype (col_dtype raw c) \<Longrightarrow>
        PosInf \<notin> set (num_values (col_values raw c))
        \<or> NegInf \<notin> set (num_values (col_values raw c))"
  shows "gaps_settled (transform_df L raw)"
proof -
  define A where "A = drop_missing_id (filter id_like (columns raw)) raw"
  define ds where "ds = filter date_like (columns raw)"
  define ss where "ss = filter status_like (columns raw)"
  define T where "T = transform_df L raw"
  define fvA where "fvA = fill_value A"
  define dA where "dA = col_dtype (time_features L ds (convert_dates L ds (fill_missing A))) (hd ss)"
  have T: "T = remove_duplicates (derive L ds ss A)"
    by (simp add: T_def transform_df_def before_dedup_derive A_def ds_def ss_def)
  have wfA: "wf_df A"
    unfolding A_def using wf by (rule wf_df_drop_missing_id)
  then have dcA: "distinct (columns A)"
    by (simp add: wf_df_def)
  have colsA: "columns A = columns raw"
    by (simp add: A_def columns_drop_missing_id)
  have ds_cols: "set ds \<subseteq> set (columns A)"
    by (auto simp: ds_def colsA)
  have dsn: "x \<notin> set time_feature_names \<and> x \<notin> set flag_names" if "x \<in> set ds" for x
    using that not_date_like_names[of x] by (auto simp: ds_def)
  have ssn: "x \<notin> set time_feature_names \<and> x \<notin> set flag_names" if "x \<in> set ss" for x
    using that not_status_like_names[of x] by (auto simp: ss_def)
  have colsT: "columns T = columns (derive L ds ss A)"
    by (simp add: T columns_def dtypes_remove_duplicates)
  have dtT: "col_dtype T c = col_dtype (derive L ds ss A) c" for c
    by (simp add: T col_dtype_def dtypes_remove_duplicates)
  have "filter date_like (columns (derive L ds ss A)) = filter date_like (columns A)"
    using ds_cols not_date_like_names by (rule filter_columns_derive)
  then have f_date: "filter date_like (columns T) = ds"
    by (simp add: colsT colsA ds_def)
  have rowsT: "set (rows T) \<subseteq> derive_row L fvA (columns A) ds ss dA ` set (rows A)"
    unfolding T fvA_def dA_def
    by (simp add: rows_remove_duplicates set_kept_from rows_derive[OF dcA])
  have "no_missing c T \<or> num_values (col_values T c) = []"
    if cT: "c \<in> set (columns T)" and rf: "refilled T c" for c
  proof -
    from rf f_date consider (flag) "ss \<noteq> []" "c \<in> set flag_names" | (base) "base_col ds ss c"
      by (auto simp: refilled_def base_col_def)
    then show ?thesis
    proof cases
      case flag
      then obtain sc ss' where "filter status_like (columns raw) = sc # ss'"
        by (cases "filter status_like (columns raw)") (auto simp: ss_def)
      with flag have "no_missing c (transform_df L raw)"
        unfolding transform_df_def before_dedup_unfold
        by (intro no_missing_remove_duplicates) (simp add: no_missing_flags)
      then show ?thesis
        by (simp add: T_def)
    next
      case base
      from cT base have cA: "c \<in> set (columns A)"
        unfolding colsT set_columns_derive[OF ds_cols] base_col_def by (auto split: if_splits)
      from rf have nd: "\<not> date_like c"
        by (simp add: refilled_def)
      then have cds: "c \<notin> set ds"
        by (simp add: ds_def)
      from base have tf: "filter date_like (columns raw) \<noteq> [] \<longrightarrow> c \<notin> set time_feature_names"
        by (auto simp: base_col_def ds_def)
      have "col_dtype T c = fill_dtype A c"
        using base cds cA by (auto simp: dtT col_dtype_derive[OF dcA] base_col_def base_dtype_def)
      moreover from rf have "is_numeric_dtype (col_dtype T c)"
        by (simp add: refilled_def)
      ultimately have numA: "is_numeric_dtype (col_dtype A c)"
        by (auto simp: fill_dtype_def fillna_dtype_def is_numeric_dtype_def split: if_splits)
      show ?thesis
      proof (cases "num_values (col_values A c) = []")
        case True
        with numA have fv: "fvA c = NA"
          by (simp add: fvA_def fill_value_def median_no_numbers)
        have "cell_of c r \<in> set (col_values A c)" if "r \<in> set (rows T)" for r
        proof -
          from that rowsT obtain a where a: "a \<in> set (rows A)"
            and r: "r = derive_row L fvA (columns A) ds ss dA a"
            by blast
          from base have "cell_of c r = base_cell L fvA (columns A) ds c a"
            unfolding r by (auto simp: cell_of_derive_row[OF dsn ssn] base_col_def)
          then have "cell_of c r = cell_of c a"
            using cds by (simp add: base_cell_def Let_def fv fill_cell_NA_value)
          with a show ?thesis
            by (simp add: col_values_def)
        qed
        then have "set (col_values T c) \<subseteq> set (col_values A c)"
          by (auto simp: col_values_def)
        then have "num_values (col_values T c) = []"
          using True by (rule num_values_empty_mono)
        then show ?thesis ..
      next
        case False
        have "set (num_values (col_values A c)) \<subseteq> set (num_values (col_values raw c))"
          unfolding A_def by (intro num_values_mono col_values_drop_missing_id)
        moreover have "PosInf \<notin> set (num_values (col_values raw c))
            \<or> NegInf \<notin> set (num_values (col_values raw c))"
        proof (rule one_sign)
          show "c \<in> set (columns raw)"
            using cA by (simp add: colsA)
          show "is_numeric_dtype (col_dtype raw c)"
            using numA by (simp add: A_def col_dtype_drop_missing_id)
        qed
        ultimately have "PosInf \<notin> set (num_values (col_values A c))
            \<or> NegInf \<notin> set (num_values (col_values A c))"
          by blast
        with False have "median (col_values A c) \<noteq> NA"
          by (rule median_is_number)
        with numA have "fill_value A c \<noteq> NA"
          by (simp add: fill_value_def)
        with cA have "no_missing c (fill_missing A)"
          unfolding fill_missing_def by (intro no_missing_fold_fill)
        then have "no_missing c (transform_df L raw)"
          unfolding A_def using nd tf by (rule no_missing_after_fill)
        then show ?thesis
          by (simp add: T_def)
      qed
    qed
  qed
  then show ?thesis
    unfolding gaps_settled_def list_all_iff T_def by blast
qed

text \<open>
  In \<open>ex_inf2\<close> the median of the first run is \<open>NaN\<close> and the gap stays; the removal of
  the duplicate row changes the median, and the second run fills the gap.
\<close>

lemma second_run_with_infinities:
  "\<not> gaps_settled (transform_df iso_pandas ex_inf2)
   \<and> \<not> no_missing ''Weight'' (transform_df iso_pandas ex_inf2)
   \<and> no_missing ''Weight'' (transform_df iso_pandas (transform_df iso_pandas ex_inf2))"
  by code_simp

section \<open>The claims\<close>

subsection \<open>Deduplication\<close>

text \<open>
  C5. For every raw table, the table that \<open>transform()\<close> produces has no two equal rows,
  and its rows are the rows of the table before deduplication that no earlier row equals,
  in row order: of each group of equal rows the first occurrence is kept.
\<close>

theorem transform_no_duplicates:
  "distinct (rows (transform_df L raw)) \<and>
   rows (transform_df L raw) = keep_first (rows (before_dedup L raw))"
proof
  show "distinct (rows (transform_df L raw))"
    by (simp add: transform_df_def rows_remove_duplicates distinct_kept_from)
  show "rows (transform_df L raw) = keep_first (rows (before_dedup L raw))"
    by (simp add: transform_df_def rows_remove_duplicates kept_from_keep_first)
qed

theorem transform_no_duplicates_witness:
  "length (rows (before_dedup iso_pandas ex1)) = 3
   \<and> length (rows (transform_df iso_pandas ex1)) = 2
   \<and> distinct (rows (transform_df iso_pandas ex1))
   \<and> rows (transform_df iso_pandas ex1) = keep_first (rows (before_dedup iso_pandas ex1))"
proof -
  have "length (rows (before_dedup iso_pandas ex1)) = 3"
    by code_simp
  moreover have "length (rows (transform_df iso_pandas ex1)) = 2"
    by code_simp
  ultimately show ?thesis
    using transform_no_duplicates[of iso_pandas ex1] by blast
qed

subsection \<open>Missing values\<close>




subsection \<open>The identifier drop\<close>

text \<open>
  C4, as the claim states its last part: if an identifier-like column exists, no row of
  the output has a missing value in it. This fails when the column is date-like as well:
  in \<open>ex2\<close> the identifier-like column \<open>Paid_Date\<close> holds a text that does not parse,
  the row is kept, and the date conversion makes the cell \<open>NaT\<close>.
\<close>

theorem identifier_gap_drop_counterexample:
  "find id_like (columns ex2) = Some ''Paid_Date''
   \<and> length (rows (transform_df iso_pandas ex2)) = 2
   \<and> isnull (cell_of ''Paid_Date'' (rows (transform_df iso_pandas ex2) ! 1))"
  by code_simp

text \<open>
  C4, amended. \<open>transform()\<close> takes the first column, in column order, whose lower-cased
  name contains "id" and drops exactly the rows where it is missing; without such a
  column no row is dropped. This is the first step: all other steps work on its result.
  If the identifier-like column is not date-like as well, it has no missing value in the
  output.
\<close>

theorem identifier_gap_drop:
  "(find id_like (columns raw) = Some id_col \<longrightarrow>
      drop_missing_id (filter id_like (columns raw)) raw
        = raw\<lparr>rows := filter (\<lambda>r. \<not> isnull (cell_of id_col r)) (rows raw)\<rparr>)
   \<and> (find id_like (columns raw) = None \<longrightarrow>
        drop_missing_id (filter id_like (columns raw)) raw = raw)
   \<and> transform_df L raw =
        remove_duplicates
          (status_flags L (filter status_like (columns raw))
            (time_features L (filter date_like (columns raw))
              (convert_dates L (filter date_like (columns raw))
                (fill_missing (drop_missing_id (filter id_like (columns raw)) raw)))))
   \<and> (find id_like (columns raw) = Some id_col \<and> \<not> date_like id_col \<longrightarrow>
        no_missing id_col (transform_df L raw))"
proof (intro conjI impI)
  show "drop_missing_id (filter id_like (columns raw)) raw
      = raw\<lparr>rows := filter (\<lambda>r. \<not> isnull (cell_of id_col r)) (rows raw)\<rparr>"
    if "find id_like (columns raw) = Some id_col"
    using that by (rule drop_missing_id_first)
  show "drop_missing_id (filter id_like (columns raw)) raw = raw"
    if "find id_like (columns raw) = None"
    using that by (rule drop_missing_id_none)
  show "transform_df L raw =
        remove_duplicates
          (status_flags L (filter status_like (columns raw))
            (time_features L (filter date_like (columns raw))
              (convert_dates L (filter date_like (columns raw))
                (fill_missing (drop_missing_id (filter id_like (columns raw)) raw)))))"
    by (simp add: transform_df_def before_dedup_unfold)
  show "no_missing id_col (transform_df L raw)"
    if h: "find id_like (columns raw) = Some id_col \<and> \<not> date_like id_col"
  proof -
    from h have f: "find id_like (columns raw) = Some id_col" and nd: "\<not> date_like id_col"
      by simp_all
    from f have "id_like id_col"
      by (rule find_holds)
    then have nt: "id_col \<notin> set time_feature_names"
      using not_id_like_time_features by blast
    have "no_missing id_col (drop_missing_id (filter id_like (columns raw)) raw)"
      by (simp add: drop_missing_id_first[OF f] no_missing_iff)
    then have "no_missing id_col (fill_missing (drop_missing_id (filter id_like (columns raw)) raw))"
      by (rule no_missing_fill_missing_keep)
    then show ?thesis
      using nd nt by (intro no_missing_after_fill) simp_all
  qed
qed

theorem identifier_gap_drop_witness:
  "find id_like (columns ex1) = Some ''Order_ID'' \<and> \<not> date_like ''Order_ID''
   \<and> length (rows (drop_missing_id (filter id_like (columns ex1)) ex1)) = 3
   \<and> no_missing ''Order_ID'' (transform_df iso_pandas ex1)
   \<and> find id_like (columns ex_no_id) = None
   \<and> drop_missing_id (filter id_like (columns ex_no_id)) ex_no_id = ex_no_id"
proof -
  have f: "find id_like (columns ex1) = Some ''Order_ID''"
    by code_simp
  have d: "\<not> date_like ''Order_ID''"
    by code_simp
  have l: "length (rows (drop_missing_id (filter id_like (columns ex1)) ex1)) = 3"
    by code_simp
  have n: "find id_like (columns ex_no_id) = None"
    by code_simp
  show ?thesis
    using identifier_gap_drop[of ex1 "''Order_ID''" iso_pandas]
      identifier_gap_drop[of ex_no_id "''Order_ID''" iso_pandas] f d l n
    by blast
qed

subsection \<open>Status flags\<close>

text \<open>
  C3. If a status-like column exists, then in every row of the transformed table
  \<open>is_delivered\<close> is 1 if the lower-cased status text contains one of "delivered",
  "completed", "success", "delivered on time" and 0 otherwise, \<open>is_late\<close> is 1 if it
  contains "late" or "delay" and 0 otherwise, and \<open>is_on_time\<close> is 1 if
  \<open>is_delivered\<close> is 1 and \<open>is_late\<close> is 0, and 0 otherwise.
\<close>

theorem status_flags_correct:
  assumes first: "find status_like (columns raw) = Some status_col"
    and row: "r \<in> set (rows (transform_df L raw))"
  shows "cell_of ''is_delivered'' r =
           (if str_contains [''delivered'', ''completed'', ''success'', ''delivered on time'']
                 (status_text L (transform_df L raw) status_col r)
            then Num 1 else Num 0)
       \<and> cell_of ''is_late'' r =
           (if str_contains [''late'', ''delay''] (status_text L (transform_df L raw) status_col r)
            then Num 1 else Num 0)
       \<and> cell_of ''is_on_time'' r =
           (if cell_of ''is_delivered'' r = Num 1 \<and> cell_of ''is_late'' r = Num 0
            then Num 1 else Num 0)"
proof -
  from find_filter[OF first] obtain ss
    where ss: "filter status_like (columns raw) = status_col # ss"
    by blast
  then have "status_col \<in> set (filter status_like (columns raw))"
    by simp
  then have sl: "status_like status_col"
    by simp
  then have ne: "status_col \<noteq> ''is_delivered''" "status_col \<noteq> ''is_late''"
      "status_col \<noteq> ''is_on_time''"
    using not_status_like_flags by auto
  define D where "D = time_features L (filter date_like (columns raw))
      (convert_dates L (filter date_like (columns raw))
        (fill_missing (drop_missing_id (filter id_like (columns raw)) raw)))"
  have E: "before_dedup L raw = status_flags L (status_col # ss) D"
    by (simp add: before_dedup_unfold D_def ss)
  have dt: "col_dtype (transform_df L raw) status_col = col_dtype D status_col"
    by (simp add: col_dtype_transform_df E col_dtype_status_flags ne)
  from row rows_transform_subset have "r \<in> set (rows (before_dedup L raw))"
    by blast
  then obtain r0 where r: "r = flags_row L (col_dtype D status_col) status_col r0"
    by (auto simp: E rows_status_flags_Cons)
  have stxt: "status_text L (transform_df L raw) status_col r
      = lower (astype_str L (col_dtype D status_col) (cell_of status_col r0))"
    by (simp add: status_text_def dt r cell_of_flags_row_other ne)
  show ?thesis
    unfolding stxt
    by (simp add: r cell_of_flags_row astype_int_def delivered_keywords_def late_keywords_def)
qed

theorem status_flags_correct_witness:
  "find status_like (columns ex1) = Some ''Delivery_Status''
   \<and> rows ex1_clean ! 0 \<in> set (rows (transform_df iso_pandas ex1))
   \<and> status_text iso_pandas (transform_df iso_pandas ex1) ''Delivery_Status'' (rows ex1_clean ! 0)
       = ''delivered on time''
   \<and> cell_of ''is_delivered'' (rows ex1_clean ! 0) = Num 1
   \<and> cell_of ''is_late'' (rows ex1_clean ! 0) = Num 0
   \<and> cell_of ''is_on_time'' (rows ex1_clean ! 0) = Num 1"
proof -
  have t: "transform_df iso_pandas ex1 = ex1_clean"
    by code_simp
  have f: "find status_like (columns ex1) = Some ''Delivery_Status''"
    by code_simp
  have m: "rows ex1_clean ! 0 \<in> set (rows (transform_df iso_pandas ex1))"
    unfolding t by (simp add: ex1_clean_def)
  have s: "status_text iso_pandas (transform_df iso_pandas ex1) ''Delivery_Status'' (rows ex1_clean ! 0)
       = ''delivered on time''"
    unfolding t by code_simp
  have d: "str_contains [''delivered'', ''completed'', ''success'', ''delivered on time'']
      ''delivered on time''"
    by code_simp
  have l: "\<not> str_contains [''late'', ''delay''] ''delivered on time''"
    by code_simp
  show ?thesis
    using status_flags_correct[OF f m] f m s d l by simp
qed

subsection \<open>Idempotence\<close>

text \<open>
  C2, as the claim states it: \<open>transform()\<close> applied to its own output returns that
  output. This fails when the first identifier-like column is date-like as well: the
  first run of \<open>ex2\<close> keeps the row whose \<open>Paid_Date\<close> does not parse, with \<open>NaT\<close> in
  that column, and the second run drops it as a row without identifier.
\<close>

theorem transform_idempotent_counterexample:
  "length (rows (transform_df iso_pandas ex2)) = 2
   \<and> length (rows (transform_df iso_pandas (transform_df iso_pandas ex2))) = 1
   \<and> transform_df iso_pandas (transform_df iso_pandas ex2) \<noteq> transform_df iso_pandas ex2"
  by code_simp

text \<open>
  C2, amended. Let the raw table be well formed (distinct column names, every row with
  one cell per column) and let the date parser reject the fill text "Unknown". If, in
  the output of \<open>transform()\<close>, the first identifier-like column has no missing value
  (by C4 this holds when its name does not contain "date"), or there is no such column,
  and every numeric column that the second run fills again has no missing value or no
  number at all, then \<open>transform()\<close> applied to that output returns it unchanged: the
  flag and time-feature columns are derived again with the same values. The condition
  on the numeric columns holds when no numeric column of the raw table has infinities
  of both signs (lemma \<open>gaps_settled_transform\<close>); \<open>ex_inf2\<close> is a table where it
  fails, and there the second run fills a gap that the first run left
  (lemma \<open>second_run_with_infinities\<close>).
\<close>

theorem transform_idempotent:
  assumes wf: "wf_df raw"
    and unk: "to_datetime_str L ''Unknown'' = None"
    and ids: "case find id_like (columns raw) of None \<Rightarrow> True
              | Some id_col \<Rightarrow> no_missing id_col (transform_df L raw)"
    and settled: "gaps_settled (transform_df L raw)"
  shows "transform_df L (transform_df L raw) = transform_df L raw"
proof -
  define A where "A = drop_missing_id (filter id_like (columns raw)) raw"
  define ds where "ds = filter date_like (columns raw)"
  define ss where "ss = filter status_like (columns raw)"
  define T where "T = transform_df L raw"
  have T: "T = remove_duplicates (derive L ds ss A)"
    by (simp add: T_def transform_df_def before_dedup_derive A_def ds_def ss_def)
  have wfA: "wf_df A"
    unfolding A_def using wf by (rule wf_df_drop_missing_id)
  have colsA: "columns A = columns raw"
    by (simp add: A_def columns_drop_missing_id)
  have ds_cols: "set ds \<subseteq> set (columns A)" and ss_cols: "set ss \<subseteq> set (columns A)"
    by (auto simp: ds_def ss_def colsA)
  have dsn: "x \<notin> set time_feature_names \<and> x \<notin> set flag_names" if "x \<in> set ds" for x
    using that not_date_like_names[of x] by (auto simp: ds_def)
  have ssn: "x \<notin> set time_feature_names \<and> x \<notin> set flag_names" if "x \<in> set ss" for x
    using that not_status_like_names[of x] by (auto simp: ss_def)
  have colsT: "columns T = columns (derive L ds ss A)"
    by (simp add: T columns_def dtypes_remove_duplicates)
  have "filter id_like (columns (derive L ds ss A)) = filter id_like (columns A)"
    using ds_cols not_id_like_time_features not_id_like_flags by (rule filter_columns_derive)
  then have f_id: "filter id_like (columns T) = filter id_like (columns raw)"
    by (simp add: colsT colsA)
  have "filter date_like (columns (derive L ds ss A)) = filter date_like (columns A)"
    using ds_cols not_date_like_names by (rule filter_columns_derive)
  then have f_date: "filter date_like (columns T) = ds"
    by (simp add: colsT colsA ds_def)
  have "filter status_like (columns (derive L ds ss A)) = filter status_like (columns A)"
    using ds_cols not_status_like_names by (rule filter_columns_derive)
  then have f_status: "filter status_like (columns T) = ss"
    by (simp add: colsT colsA ss_def)
  have gaps: "no_missing c T \<or> num_values (col_values T c) = []"
    if cT: "c \<in> set (columns T)" and b: "base_col ds ss c" and nd: "c \<notin> set ds"
      and num: "is_numeric_dtype (col_dtype T c)" for c
  proof -
    from cT b have "c \<in> set (columns A)"
      unfolding colsT set_columns_derive[OF ds_cols] base_col_def by (auto split: if_splits)
    with nd have "\<not> date_like c"
      by (simp add: ds_def colsA)
    moreover from b have "\<not> (filter date_like (columns T) \<noteq> [] \<and> c \<in> set time_feature_names)"
      by (simp add: f_date base_col_def)
    ultimately have "refilled T c"
      using num by (simp add: refilled_def)
    with settled cT show ?thesis
      by (auto simp: gaps_settled_def list_all_iff T_def)
  qed
  have again: "derive L ds ss T = T"
    using wfA ds_cols ss_cols dsn ssn unk T gaps by (rule derive_second_run)
  have drop: "drop_missing_id (filter id_like (columns raw)) T = T"
    using ids unfolding T_def by (rule drop_missing_id_no_missing)
  have "distinct (rows T)"
    by (simp add: T rows_remove_duplicates distinct_kept_from)
  then have dedup: "remove_duplicates T = T"
    by (rule remove_duplicates_distinct)
  have "transform_df L T = remove_duplicates (derive L ds ss T)"
    by (simp add: transform_df_def before_dedup_derive f_id f_date f_status drop)
  then show ?thesis
    by (simp add: again dedup T_def[symmetric])
qed

theorem transform_idempotent_witness:
  "wf_df ex1 \<and> to_datetime_str iso_pandas ''Unknown'' = None
   \<and> find id_like (columns ex1) = Some ''Order_ID''
   \<and> no_missing ''Order_ID'' (transform_df iso_pandas ex1)
   \<and> gaps_settled (transform_df iso_pandas ex1)
   \<and> transform_df iso_pandas (transform_df iso_pandas ex1) = transform_df iso_pandas ex1"
proof -
  have h1: "wf_df ex1"
    by code_simp
  have h2: "to_datetime_str iso_pandas ''Unknown'' = None"
    by code_simp
  have h3: "find id_like (columns ex1) = Some ''Order_ID''"
    by code_simp
  have h4: "no_missing ''Order_ID'' (transform_df iso_pandas ex1)"
    by code_simp
  have h5: "gaps_settled (transform_df iso_pandas ex1)"
    by code_simp
  from h3 h4 have "case find id_like (columns ex1) of None \<Rightarrow> True
      | Some id_col \<Rightarrow> no_missing id_col (transform_df iso_pandas ex1)"
    by simp
  from transform_idempotent[OF h1 h2 this h5] h1 h2 h3 h4 h5 show ?thesis
    by blast
qed

subsection \<open>Extract\<close>

text \<open>
  C6. \<open>extract()\<close> raises \<open>FileNotFoundError\<close> exactly when the raw input path does
  not exist; then the run ends with this error in the state it started in, so the
  processed-dataset file is neither created nor modified.
\<close>

theorem extract_source_not_found:
  "((\<exists>s'. extract_raw E s = Raises FileNotFoundError s') \<longleftrightarrow> files s RAW_DATASET = None)
   \<and> (files s RAW_DATASET = None \<longrightarrow>
        run E L load_db s = Raises FileNotFoundError s
        \<and> files (final_state (run E L load_db s)) PROCESSED_DATASET = files s PROCESSED_DATASET)"
  by (auto simp: extract_raw_def run_def csv_stages_def split: option.splits prod.splits)

theorem extract_source_not_found_witness:
  "files (init_etl Map.empty) RAW_DATASET = None
   \<and> run example_env iso_pandas True (init_etl Map.empty)
       = Raises FileNotFoundError (init_etl Map.empty)"
  using extract_source_not_found[of example_env "init_etl Map.empty" iso_pandas True]
  by (simp add: init_etl_def)

subsection \<open>The database sink\<close>

text \<open>
  C7. The stage never makes the run fail (lemmas \<open>load_to_database_returns\<close>,
  \<open>load_to_database_catches\<close> and \<open>run_succeeds_after_csv\<close>), but it is skipped only
  when SQLAlchemy is missing (lemma \<open>load_to_database_skips\<close>), a library the stage does
  not use. Its driver is psycopg2, imported inside the \<open>try\<close> block. With SQLAlchemy
  installed and psycopg2 not installed the driver is unavailable and the stage is not a
  no-op that reports being skipped: it announces the connection, the import raises, and
  it reports a failed load, on every state (lemma \<open>load_to_database_import_fails\<close>).
  Without SQLAlchemy the same call reports the skip.
\<close>

theorem missing_driver_not_skipped:
  "SQLALCHEMY_AVAILABLE no_psycopg2_env
   \<and> db_fails no_psycopg2_env ImportPsycopg2
   \<and> raised (load_to_database no_psycopg2_env ex1_transformed) = None
   \<and> stdout (final_state (load_to_database no_psycopg2_env ex1_transformed))
       = stdout ex1_transformed @ [ConnectingToPostgreSQL, DatabaseLoadFailed ImportError]
   \<and> SkippingDatabaseLoad
       \<notin> set (stdout (final_state (load_to_database no_psycopg2_env ex1_transformed)))
   \<and> stdout (final_state (load_to_database no_sqlalchemy_env ex1_transformed))
       = stdout ex1_transformed @ [SkippingDatabaseLoad]"
  by code_simp

text \<open>
  C9. The connection is closed only by the last statement of the \<open>try\<close> block. With the
  example table the first insert fails after the connection was opened: the stage
  returns, and the connection is still open.
\<close>

theorem connection_left_open:
  "open_connections ex1_transformed = 0
   \<and> raised (load_to_database example_env ex1_transformed) = None
   \<and> open_connections (final_state (load_to_database example_env ex1_transformed)) = 1"
  by code_simp

subsection \<open>Validate\<close>

text \<open>
  C8. On a transformed table without rows that has an identifier-like column,
  \<open>validate()\<close> divides by the row count and raises \<open>ZeroDivisionError\<close>: here on the
  table read from a file with a header line only.
\<close>

theorem validate_raises_on_empty_table:
  "raised (and_then (transform iso_pandas (extracted ex_empty)) validate) = Some ZeroDivisionError"
  by code_simp

subsection \<open>The raw table\<close>

text \<open>
  C10. \<open>transform()\<close> works on a copy: when it returns, \<open>self.raw_df\<close> refers to the
  same object as before, and this object holds the same table.
\<close>

theorem transform_keeps_raw:
  assumes "raw_df s = Some a" and "heap s a = Some raw" and "a < next_addr s"
  shows "\<exists>s'. transform L s = Returns s' \<and> raw_df s' = Some a \<and> heap s' a = Some raw"
proof -
  from assms have "deref s (raw_df s) = Some raw"
    by (simp add: deref_def)
  from transform_local[OF this, of L] obtain p
    where t: "transform L s = Returns ((snd p)\<lparr>clean_df := Some (fst p)\<rparr>)"
      and l: "local_df s (transform_df L raw) p"
    by blast
  from l assms have "raw_df (snd p) = Some a" "heap (snd p) a = Some raw"
    by (simp_all add: local_df_def list_all_iff)
  with t show ?thesis by simp
qed

theorem transform_keeps_raw_witness:
  "raw_df (extracted ex1) = Some 0 \<and> heap (extracted ex1) 0 = Some ex1
   \<and> 0 < next_addr (extracted ex1)
   \<and> (\<exists>s'. transform iso_pandas (extracted ex1) = Returns s' \<and> raw_df s' = Some 0
            \<and> heap s' 0 = Some ex1)"
  using transform_keeps_raw[of "extracted ex1" 0 ex1 iso_pandas]
  by (simp add: extracted_def)

end
